theory Spec2Isabelle
  imports Complex_Main
begin

section \<open>Data model of the word cloud generator\<close>

text \<open>
  The development embeds \<^verbatim>\<open>src/wordcloud/generator.ts\<close> (class \<^verbatim>\<open>WordCloudGenerator\<close>)
  and, where a property speaks about them, the font-size and colour functions of the
  advanced and multi-format generator variants.

  Conventions of the embedding:
  \<^item> a JavaScript string is the list of its code points (\<open>nat\<close>); the characters the code
    inspects (white space, the five XML characters, the CJK block) all lie in the Basic
    Multilingual Plane, so code points and UTF-16 code units agree on them;
  \<^item> a JavaScript \<^verbatim>\<open>number\<close> is a \<open>real\<close>: \<^verbatim>\<open>NaN\<close> and the infinities of IEEE
    doubles are not represented, and the arithmetic is exact except in the loop of
    \<^verbatim>\<open>generateAngles\<close>, whose sum is rounded to a double; counts and indices are \<open>nat\<close>;
  \<^item> an object \<^verbatim>\<open>{word, frequency}\<close> is the pair \<open>(word, frequency)\<close>;
  \<^item> an array grows to the length the environment allows, and a \<^verbatim>\<open>push\<close> beyond it is
    the error that the engine throws; every loop of the program ends, so every function
    of the embedding is total.
\<close>

type_synonym jsstring = "nat list"

definition ascii :: "string \<Rightarrow> jsstring" where
  "ascii s = map of_char s"

text \<open>The interface \<^verbatim>\<open>WordItem\<close>; the field names carry the prefix \<open>item\<close>.\<close>

record WordItem =
  itemText :: jsstring
  itemFrequency :: nat
  itemFontSize :: real
  itemColor :: "jsstring option"
  itemAngle :: real
  itemX :: real
  itemY :: real
  itemWidth :: real
  itemHeight :: real

text \<open>The anonymous object type \<^verbatim>\<open>{x, y, width, height}\<close> of occupied areas.\<close>

record Area =
  areaX :: real
  areaY :: real
  areaWidth :: real
  areaHeight :: real

text \<open>The object types \<^verbatim>\<open>{min, max}\<close> and \<^verbatim>\<open>{width, height}\<close>.\<close>

record Range =
  rangeMin :: real
  rangeMax :: real

record Dimensions =
  dimWidth :: real
  dimHeight :: real

text \<open>\<^verbatim>\<open>Required<WordCloudOptions>\<close>: the configuration after the defaults are merged in;
  the field names carry the prefix \<open>cfg\<close>.\<close>

record Config =
  cfgTheme :: jsstring
  cfgShape :: jsstring
  cfgWordGap :: real
  cfgFontSize :: Range
  cfgAngleRange :: Range
  cfgAngleStep :: real
  cfgOutputPath :: jsstring
  cfgWidth :: real
  cfgHeight :: real

text \<open>\<^verbatim>\<open>WordCloudOptions\<close>: every field is optional.\<close>

record WordCloudOptions =
  optTheme :: "jsstring option"
  optShape :: "jsstring option"
  optWordGap :: "real option"
  optFontSize :: "Range option"
  optAngleRange :: "Range option"
  optAngleStep :: "real option"
  optOutputPath :: "jsstring option"
  optWidth :: "real option"
  optHeight :: "real option"

section \<open>Strings\<close>

text \<open>
  The characters matched by \<^verbatim>\<open>\s\<close> and stripped by \<^verbatim>\<open>trim()\<close>: ECMAScript's
  WhiteSpace and LineTerminator code points.
\<close>

definition isWhiteSpace :: "nat \<Rightarrow> bool" where
  "isWhiteSpace c \<longleftrightarrow>
     (9 \<le> c \<and> c \<le> 13) \<or> c = 32 \<or> c = 160 \<or> c = 5760 \<or> (8192 \<le> c \<and> c \<le> 8202) \<or>
     c = 8232 \<or> c = 8233 \<or> c = 8239 \<or> c = 8287 \<or> c = 12288 \<or> c = 65279"

definition trim :: "jsstring \<Rightarrow> jsstring" where
  "trim s = rev (dropWhile isWhiteSpace (rev (dropWhile isWhiteSpace s)))"

text \<open>
  \<^verbatim>\<open>text.split(/\s+/)\<close>: the pieces between maximal runs of white space, with an empty
  piece before a leading run and after a trailing one. \<open>cur\<close> is the piece being read.
\<close>

function splitFrom :: "jsstring \<Rightarrow> jsstring \<Rightarrow> jsstring list" where
  "splitFrom cur [] = [cur]"
| "splitFrom cur (c # cs) =
     (if isWhiteSpace c then cur # splitFrom [] (dropWhile isWhiteSpace cs)
      else splitFrom (cur @ [c]) cs)"
  by pat_completeness auto
termination
  by (relation "measure (\<lambda>(cur, cs). length cs)")
     (auto simp: length_dropWhile_le le_imp_less_Suc)

definition splitWhiteSpace :: "jsstring \<Rightarrow> jsstring list" where
  "splitWhiteSpace s = splitFrom [] s"

text \<open>\<^verbatim>\<open>text.replace(/c/g, s)\<close> for a single character \<open>c\<close>.\<close>

definition replaceAll :: "nat \<Rightarrow> jsstring \<Rightarrow> jsstring \<Rightarrow> jsstring" where
  "replaceAll c s txt = concat (map (\<lambda>d. if d = c then s else [d]) txt)"

section \<open>Frequency analysis\<close>

text \<open>
  The \<^verbatim>\<open>Map<string, number>\<close> is an association list in insertion order, which is the
  order \<^verbatim>\<open>entries()\<close> iterates in: \<^verbatim>\<open>set\<close> on a present key updates it in place, on
  an absent key appends it.
\<close>

fun mapGet :: "(jsstring \<times> nat) list \<Rightarrow> jsstring \<Rightarrow> nat option" where
  "mapGet [] k = None"
| "mapGet ((k', v) # m) k = (if k' = k then Some v else mapGet m k)"

fun mapSet :: "(jsstring \<times> nat) list \<Rightarrow> jsstring \<Rightarrow> nat \<Rightarrow> (jsstring \<times> nat) list" where
  "mapSet [] k v = [(k, v)]"
| "mapSet ((k', v') # m) k v = (if k' = k then (k, v) # m else (k', v') # mapSet m k v)"

text \<open>The body of \<^verbatim>\<open>words.forEach(word => ...)\<close>.\<close>

definition countWord :: "(jsstring \<times> nat) list \<Rightarrow> jsstring \<Rightarrow> (jsstring \<times> nat) list" where
  "countWord frequencyMap word =
     (let cleanWord = trim word
      in if length cleanWord > 0
         then mapSet frequencyMap cleanWord
                ((case mapGet frequencyMap cleanWord of None \<Rightarrow> 0 | Some n \<Rightarrow> n) + 1)
         else frequencyMap)"

text \<open>
  \<^verbatim>\<open>xs.sort((a, b) => key(b) - key(a))\<close>. \<^verbatim>\<open>Array.prototype.sort\<close> is a stable sort,
  and the stable sort of a list is unique, so the library's stable insertion sort on the
  negated key computes it.
\<close>

definition sortDescending :: "('a \<Rightarrow> real) \<Rightarrow> 'a list \<Rightarrow> 'a list" where
  "sortDescending key xs = sort_key (\<lambda>x. - key x) xs"

definition analyzeWordFrequency :: "jsstring \<Rightarrow> (jsstring \<times> nat) list" where
  "analyzeWordFrequency txt =
     (if txt = [] \<or> length (trim txt) = 0 then []
      else
        let words = filter (\<lambda>word. length word > 0) (splitWhiteSpace txt);
            frequencyMap = foldl countWord [] words
        in take 120 (sortDescending (\<lambda>(word, frequency). real frequency) frequencyMap))"

section \<open>Rendering: XML escaping\<close>

definition escapeXml :: "jsstring \<Rightarrow> jsstring" where
  "escapeXml txt =
     replaceAll 39 (ascii ''&#39;'')
       (replaceAll 34 (ascii ''&quot;'')
         (replaceAll 62 (ascii ''&gt;'')
           (replaceAll 60 (ascii ''&lt;'')
             (replaceAll 38 (ascii ''&amp;'') txt))))"

section \<open>Preparing the word items\<close>

text \<open>The table \<^verbatim>\<open>colorThemes\<close>.\<close>

definition defaultTheme :: "jsstring list" where
  "defaultTheme =
     [ascii ''#FF4444'', ascii ''#2196F3'', ascii ''#4CAF50'', ascii ''#FF9800'', ascii ''#9C27B0'',
      ascii ''#00BCD4'', ascii ''#795548'', ascii ''#607D8B'', ascii ''#E91E63'', ascii ''#3F51B5'',
      ascii ''#009688'', ascii ''#FFC107'', ascii ''#673AB7'', ascii ''#FF5722'', ascii ''#8BC34A'',
      ascii ''#CDDC39'', ascii ''#FF6B6B'', ascii ''#4ECDC4'', ascii ''#45B7D1'', ascii ''#96CEB4'']"

definition colorfulTheme :: "jsstring list" where
  "colorfulTheme =
     [ascii ''#FF1744'', ascii ''#2979FF'', ascii ''#00E676'', ascii ''#FF6D00'', ascii ''#D500F9'',
      ascii ''#00E5FF'', ascii ''#6D4C41'', ascii ''#455A64'', ascii ''#C51162'', ascii ''#3D5AFE'',
      ascii ''#1DE9B6'', ascii ''#FFD600'', ascii ''#651FFF'', ascii ''#FF3D00'', ascii ''#76FF03'',
      ascii ''#C6FF00'', ascii ''#FF4081'', ascii ''#40C4FF'', ascii ''#69F0AE'', ascii ''#B2FF59'']"

definition warmTheme :: "jsstring list" where
  "warmTheme =
     [ascii ''#FF6B6B'', ascii ''#FF8E53'', ascii ''#FF6B9D'', ascii ''#C44569'', ascii ''#F8B500'',
      ascii ''#FF7675'', ascii ''#FD79A8'', ascii ''#E17055'', ascii ''#FDCB6E'', ascii ''#E84393'']"

definition coolTheme :: "jsstring list" where
  "coolTheme =
     [ascii ''#0984e3'', ascii ''#74b9ff'', ascii ''#00b894'', ascii ''#00cec9'', ascii ''#6c5ce7'',
      ascii ''#a29bfe'', ascii ''#fd79a8'', ascii ''#55a3ff'', ascii ''#26de81'', ascii ''#45aaf2'']"

definition natureTheme :: "jsstring list" where
  "natureTheme =
     [ascii ''#00b894'', ascii ''#00cec9'', ascii ''#55a3ff'', ascii ''#fdcb6e'', ascii ''#6c5ce7'',
      ascii ''#fd79a8'', ascii ''#e17055'', ascii ''#81ecec'', ascii ''#74b9ff'', ascii ''#a29bfe'']"

definition businessTheme :: "jsstring list" where
  "businessTheme =
     [ascii ''#2d3436'', ascii ''#636e72'', ascii ''#74b9ff'', ascii ''#0984e3'', ascii ''#00b894'',
      ascii ''#fdcb6e'', ascii ''#e17055'', ascii ''#6c5ce7'', ascii ''#fd79a8'', ascii ''#55a3ff'']"

definition colorThemes :: "jsstring \<Rightarrow> jsstring list option" where
  "colorThemes name =
     (if name = ascii ''default'' then Some defaultTheme
      else if name = ascii ''colorful'' then Some colorfulTheme
      else if name = ascii ''warm'' then Some warmTheme
      else if name = ascii ''cool'' then Some coolTheme
      else if name = ascii ''nature'' then Some natureTheme
      else if name = ascii ''business'' then Some businessTheme
      else None)"

text \<open>
  Library functions on numbers. \<open>mathPow\<close> is \<^verbatim>\<open>Math.pow\<close> for a base \<open>\<ge> 0\<close> and a
  positive exponent (a negative base with a fractional exponent gives \<^verbatim>\<open>NaN\<close>, which
  the embedding does not represent); \<open>mathRound\<close> is \<^verbatim>\<open>Math.round\<close>, which rounds
  halves up.
\<close>

definition mathPow :: "real \<Rightarrow> real \<Rightarrow> real" where
  "mathPow b e = b powr e"

definition mathRound :: "real \<Rightarrow> real" where
  "mathRound v = of_int \<lfloor>v + 1 / 2\<rfloor>"

text \<open>
  The numbers of the program are IEEE 754 doubles, and the sum of two of them is the exact
  sum rounded to the nearest double, ties to the even significand. \<open>roundDouble v\<close> is that
  rounding: with \<open>e = ulpExponent v\<close>, the doubles around \<open>v\<close> are the integer multiples of
  \<open>2 powr e\<close>, 53 bits of significand above the least exponent \<open>- 1074\<close>. The overflow to
  \<^verbatim>\<open>Infinity\<close> is not represented: a result beyond the largest double stays a number
  beyond every double, which compares with the doubles as \<^verbatim>\<open>Infinity\<close> does. The embedding
  rounds where a run depends on it, in the accumulating sum \<^verbatim>\<open>angle += angleStep\<close> of
  \<^verbatim>\<open>generateAngles\<close>; the other arithmetic is exact.
\<close>

definition roundHalfEven :: "real \<Rightarrow> int" where
  "roundHalfEven q =
     (let f = \<lfloor>q\<rfloor>
      in if q - of_int f < 1 / 2 then f
         else if 1 / 2 < q - of_int f then f + 1
         else if even f then f else f + 1)"

definition ulpExponent :: "real \<Rightarrow> int" where
  "ulpExponent v = max (\<lfloor>log 2 \<bar>v\<bar>\<rfloor> - 52) (- 1074)"

definition roundDouble :: "real \<Rightarrow> real" where
  "roundDouble v =
     (if v = 0 then 0
      else of_int (roundHalfEven (v / 2 powr of_int (ulpExponent v)))
             * 2 powr of_int (ulpExponent v))"

text \<open>An array read \<^verbatim>\<open>xs[i]\<close>; \<open>None\<close> is \<^verbatim>\<open>undefined\<close>.\<close>

definition arrayGet :: "'a list \<Rightarrow> int \<Rightarrow> 'a option" where
  "arrayGet xs i = (if 0 \<le> i \<and> i < int (length xs) then Some (xs ! nat i) else None)"

definition calculateFontSize :: "real \<Rightarrow> real \<Rightarrow> real \<Rightarrow> Range \<Rightarrow> real" where
  "calculateFontSize frequency minFreq maxFreq fontSizeRange =
     (if maxFreq = minFreq then (rangeMin fontSizeRange + rangeMax fontSizeRange) / 2
      else
        let normalizedFreq = (frequency - minFreq) / (maxFreq - minFreq);
            scaledFreq = mathPow normalizedFreq 0.5;
            sizeRange = rangeMax fontSizeRange - rangeMin fontSizeRange;
            calculatedSize = rangeMin fontSizeRange + scaledFreq * sizeRange;
            maxAllowedSize = rangeMin fontSizeRange + sizeRange * 0.8
        in min calculatedSize maxAllowedSize)"

text \<open>
  \<^verbatim>\<open>calculateAdvancedFontSize\<close> of the advanced generator; \<^verbatim>\<open>calculateFontSize\<close> of
  the multi-format generator has the same body.
\<close>

definition calculateAdvancedFontSize :: "real \<Rightarrow> real \<Rightarrow> real \<Rightarrow> Range \<Rightarrow> real" where
  "calculateAdvancedFontSize frequency minFreq maxFreq fontSizeRange =
     (if maxFreq = minFreq then (rangeMin fontSizeRange + rangeMax fontSizeRange) / 2
      else
        let normalizedFreq = (frequency - minFreq) / (maxFreq - minFreq);
            logScale = ln (normalizedFreq + 1) / ln 2;
            enhancedScale = mathPow logScale 0.8
        in rangeMin fontSizeRange
             + enhancedScale * (rangeMax fontSizeRange - rangeMin fontSizeRange))"

text \<open>
  \<^verbatim>\<open>selectColorInternal\<close>. \<open>maxFreq\<close> is the largest count of a non-empty word list, so
  it is positive wherever the preparer calls the function. On an empty palette the
  JavaScript index is \<^verbatim>\<open>NaN\<close> and the read \<^verbatim>\<open>undefined\<close>; here the index is out of range
  and the read \<open>None\<close>.
\<close>

definition selectColorInternal :: "jsstring list \<Rightarrow> nat \<Rightarrow> real \<Rightarrow> real \<Rightarrow> jsstring option" where
  "selectColorInternal colors index frequency maxFreq =
     (let frequencyRatio = frequency / maxFreq
      in if frequencyRatio > 0.8
         then arrayGet colors (int (index mod (min 5 (length colors))))
         else if frequencyRatio > 0.5
         then arrayGet colors (int (index mod (min 10 (length colors))))
         else arrayGet colors (int (index mod (length colors))))"

text \<open>
  What a run can end in besides a value. Three errors are thrown, and \<^verbatim>\<open>generate\<close> wraps
  each in its \<^verbatim>\<open>catch\<close> into a generation failure: the empty-input error, the error of
  \<^verbatim>\<open>saveFile\<close>, and \<^verbatim>\<open>RangeError: Invalid array length\<close>, which \<^verbatim>\<open>Array.prototype.push\<close>
  throws on an array that cannot grow. \<open>UndefinedAngle\<close> is not an exception: from an
  \<^verbatim>\<open>undefined\<close> angle on every number is \<^verbatim>\<open>NaN\<close> and the embedding stops following the
  run.
\<close>

datatype error = EmptyInput | SaveFailure jsstring | UndefinedAngle | InvalidArrayLength

text \<open>
  The loop of \<^verbatim>\<open>generateAngles\<close>, entered at \<open>angle\<close> with the array \<open>angles\<close>. The sum
  \<^verbatim>\<open>angle += angleStep\<close> is rounded. \<open>arrayLimit\<close> is the length at which the engine
  refuses to grow an array (at most \<open>2^32 - 1\<close>, the largest length of an array in
  ECMAScript): \<^verbatim>\<open>angles.push(angle)\<close> on an array of that length throws. The loop has no
  other exit than \<open>angle > angleRange.max\<close>, so a run whose angle never passes the maximum
  ends in the error.
\<close>

function generateAnglesFrom ::
    "nat \<Rightarrow> real \<Rightarrow> real \<Rightarrow> real \<Rightarrow> real list \<Rightarrow> error + real list" where
  "generateAnglesFrom arrayLimit angle angleMax angleStep angles =
     (if angle \<le> angleMax
      then if length angles < arrayLimit
           then generateAnglesFrom arrayLimit (roundDouble (angle + angleStep)) angleMax angleStep
                  (angles @ [angle])
           else Inl InvalidArrayLength
      else Inr angles)"
  by pat_completeness auto
termination
  by (relation "measure (\<lambda>(arrayLimit, angle, angleMax, angleStep, angles).
                  arrayLimit - length angles)") auto

declare generateAnglesFrom.simps [simp del]

definition generateAngles :: "nat \<Rightarrow> Range \<Rightarrow> real \<Rightarrow> error + real list" where
  "generateAngles arrayLimit angleRange angleStep =
     (case generateAnglesFrom arrayLimit (rangeMin angleRange) (rangeMax angleRange) angleStep []
      of Inl e \<Rightarrow> Inl e
       | Inr angles \<Rightarrow> Inr (if length angles > 0 then angles else [0]))"

text \<open>
  \<^verbatim>\<open>calculateAngle\<close>. \<open>rnd\<close> is the value \<^verbatim>\<open>Math.random()\<close> returns when the function
  calls it. The result is \<open>Inl e\<close> when \<^verbatim>\<open>generateAngles\<close> throws, and \<open>Inr None\<close> when
  the angle read is \<^verbatim>\<open>undefined\<close>.
\<close>

definition calculateAngle :: "nat \<Rightarrow> real \<Rightarrow> nat \<Rightarrow> Range \<Rightarrow> real \<Rightarrow> error + real option" where
  "calculateAngle arrayLimit rnd index angleRange angleStep =
     (case generateAngles arrayLimit angleRange angleStep of
        Inl e \<Rightarrow> Inl e
      | Inr angles \<Rightarrow>
          Inr (if index < 5 then Some 0
               else if index < 15 then
                 (let smallAngles = filter (\<lambda>angle. \<bar>angle\<bar> \<le> 30) angles
                  in case arrayGet smallAngles \<lfloor>rnd * real (length smallAngles)\<rfloor> of
                       None \<Rightarrow> Some 0
                     | Some angle \<Rightarrow> Some (if angle = 0 then 0 else angle))
               else arrayGet angles \<lfloor>rnd * real (length angles)\<rfloor>))"

text \<open>\<^verbatim>\<open>/[\u4e00-\u9fff]/.test(char)\<close> on one code point of \<^verbatim>\<open>for (const char of text)\<close>.\<close>

definition isCJK :: "nat \<Rightarrow> bool" where
  "isCJK c \<longleftrightarrow> 19968 \<le> c \<and> c \<le> 40959"

definition baseWidthOf :: "jsstring \<Rightarrow> real \<Rightarrow> real" where
  "baseWidthOf txt fontSize =
     foldl (\<lambda>baseWidth char. if isCJK char then baseWidth + fontSize
                              else baseWidth + fontSize * 0.6) 0 txt"

definition estimateTextDimensions :: "jsstring \<Rightarrow> real \<Rightarrow> real \<Rightarrow> Dimensions" where
  "estimateTextDimensions txt fontSize angle =
     (let baseWidth = baseWidthOf txt fontSize;
          baseHeight = fontSize * 1.2
      in if angle = 0 then \<lparr>dimWidth = baseWidth, dimHeight = baseHeight\<rparr>
         else
           let radians = (\<bar>angle\<bar> * pi) / 180;
               rotatedWidth = \<bar>baseWidth * cos radians\<bar> + \<bar>baseHeight * sin radians\<bar>;
               rotatedHeight = \<bar>baseWidth * sin radians\<bar> + \<bar>baseHeight * cos radians\<bar>
           in \<lparr>dimWidth = rotatedWidth, dimHeight = rotatedHeight\<rparr>)"

text \<open>
  The callback of \<^verbatim>\<open>wordFrequencies.map((item, index) => ...)\<close>, applied from \<open>index\<close>
  on. \<open>random k\<close> is the result of the \<open>k\<close>-th call of \<^verbatim>\<open>Math.random()\<close>; \<open>calls\<close>
  counts the calls made so far.
\<close>

fun prepareFrom ::
    "(nat \<Rightarrow> real) \<Rightarrow> nat \<Rightarrow> Config \<Rightarrow> nat \<Rightarrow> nat \<Rightarrow> jsstring list \<Rightarrow> nat \<Rightarrow> nat \<Rightarrow>
     (jsstring \<times> nat) list \<Rightarrow> error + WordItem list" where
  "prepareFrom random arrayLimit config minFreq maxFreq colors index calls [] = Inr []"
| "prepareFrom random arrayLimit config minFreq maxFreq colors index calls
     ((word, frequency) # rest) =
     (let fontSize = calculateFontSize (real frequency) (real minFreq) (real maxFreq)
                       (cfgFontSize config);
          color = selectColorInternal colors index (real frequency) (real maxFreq)
      in case calculateAngle arrayLimit (random calls) index (cfgAngleRange config)
                (cfgAngleStep config) of
           Inl e \<Rightarrow> Inl e
         | Inr None \<Rightarrow> Inl UndefinedAngle
         | Inr (Some angle) \<Rightarrow>
             (let dimensions = estimateTextDimensions word fontSize angle;
                  item = \<lparr>itemText = word, itemFrequency = frequency,
                          itemFontSize = mathRound fontSize, itemColor = color,
                          itemAngle = angle, itemX = 0, itemY = 0,
                          itemWidth = dimWidth dimensions, itemHeight = dimHeight dimensions\<rparr>
              in case prepareFrom random arrayLimit config minFreq maxFreq colors (index + 1)
                        (if index < 5 then calls else calls + 1) rest of
                   Inl e \<Rightarrow> Inl e
                 | Inr items \<Rightarrow> Inr (item # items)))"

definition prepareWordItems ::
    "(nat \<Rightarrow> real) \<Rightarrow> nat \<Rightarrow> (jsstring \<times> nat) list \<Rightarrow> Config \<Rightarrow> error + WordItem list" where
  "prepareWordItems random arrayLimit wordFrequencies config =
     (if length wordFrequencies = 0 then Inr []
      else
        let maxFreq = Max (set (map snd wordFrequencies));
            minFreq = Min (set (map snd wordFrequencies));
            colors = (case colorThemes (cfgTheme config) of Some c \<Rightarrow> c | None \<Rightarrow> defaultTheme)
        in prepareFrom random arrayLimit config minFreq maxFreq colors 0 0 wordFrequencies)"

section \<open>Layout\<close>

definition isOverlapping :: "Area \<Rightarrow> Area \<Rightarrow> bool" where
  "isOverlapping area1 area2 \<longleftrightarrow>
     \<not> (areaX area1 + areaWidth area1 < areaX area2 \<or>
        areaX area2 + areaWidth area2 < areaX area1 \<or>
        areaY area1 + areaHeight area1 < areaY area2 \<or>
        areaY area2 + areaHeight area2 < areaY area1)"

text \<open>
  The object literal \<^verbatim>\<open>{x: word.x - gap, y: word.y - gap, width: word.width + gap * 2,
  height: word.height + gap * 2}\<close> that both the search and the layout loop build, the
  gap the search tests with (\<^verbatim>\<open>Math.max(config.wordGap, word.fontSize / 12)\<close>), and the
  gap the layout loop records with (\<^verbatim>\<open>Math.max(config.wordGap, word.fontSize / 10)\<close>).
\<close>

definition paddedArea :: "WordItem \<Rightarrow> real \<Rightarrow> Area" where
  "paddedArea word gap =
     \<lparr>areaX = itemX word - gap, areaY = itemY word - gap,
      areaWidth = itemWidth word + gap * 2, areaHeight = itemHeight word + gap * 2\<rparr>"

definition searchGap :: "Config \<Rightarrow> WordItem \<Rightarrow> real" where
  "searchGap config word = max (cfgWordGap config) (itemFontSize word / 12)"

definition recordedGap :: "Config \<Rightarrow> WordItem \<Rightarrow> real" where
  "recordedGap config word = max (cfgWordGap config) (itemFontSize word / 10)"

text \<open>
  The body of the inner loop of \<^verbatim>\<open>findPositionOrderedSpiral\<close> for the angle index
  \<open>i\<close>: \<open>None\<close> is \<^verbatim>\<open>continue\<close> or an overlap, \<open>Some (x, y)\<close> is \<^verbatim>\<open>return true\<close>
  with \<^verbatim>\<open>word.x\<close> and \<^verbatim>\<open>word.y\<close> set.
\<close>

definition spiralCandidate ::
    "WordItem \<Rightarrow> real \<Rightarrow> real \<Rightarrow> Area list \<Rightarrow> Config \<Rightarrow> real \<Rightarrow> nat \<Rightarrow> nat \<Rightarrow>
     (real \<times> real) option" where
  "spiralCandidate word centerX centerY occupiedAreas config radius numAngles i =
     (let angle = (real i * 2 * pi) / real numAngles;
          ellipseRatioX = 1 + sin angle * 0.1;
          ellipseRatioY = 1 + cos angle * 0.1;
          x = centerX + radius * cos angle * ellipseRatioX - itemWidth word / 2;
          y = centerY + radius * sin angle * ellipseRatioY - itemHeight word / 2;
          margin = 10
      in if x < margin \<or> y < margin \<or>
            x + itemWidth word > cfgWidth config - margin \<or>
            y + itemHeight word > cfgHeight config - margin
         then None
         else
           let word = word\<lparr>itemX := x, itemY := y\<rparr>;
               gap = searchGap config word;
               wordArea = paddedArea word gap;
               hasOverlap = list_ex (\<lambda>area. isOverlapping wordArea area) occupiedAreas
           in if \<not> hasOverlap then Some (x, y) else None)"

text \<open>The inner loop \<^verbatim>\<open>for (let i = 0; i < numAngles; i++)\<close>, entered at \<open>i\<close>.\<close>

function spiralAngles ::
    "WordItem \<Rightarrow> real \<Rightarrow> real \<Rightarrow> Area list \<Rightarrow> Config \<Rightarrow> real \<Rightarrow> nat \<Rightarrow> nat \<Rightarrow>
     (real \<times> real) option" where
  "spiralAngles word centerX centerY occupiedAreas config radius numAngles i =
     (if i < numAngles then
        (case spiralCandidate word centerX centerY occupiedAreas config radius numAngles i of
           Some p \<Rightarrow> Some p
         | None \<Rightarrow>
             spiralAngles word centerX centerY occupiedAreas config radius numAngles (i + 1))
      else None)"
  by pat_completeness auto
termination
  by (relation "measure (\<lambda>(word, centerX, centerY, occupiedAreas, config, radius, numAngles, i).
                  numAngles - i)") auto

declare spiralAngles.simps [simp del]

definition maxRadiusOf :: "WordItem \<Rightarrow> Config \<Rightarrow> real" where
  "maxRadiusOf word config =
     min (cfgWidth config) (cfgHeight config) / 2 - max (itemWidth word) (itemHeight word)"

definition radiusStepOf :: "WordItem \<Rightarrow> real" where
  "radiusStepOf word = max 2 (itemFontSize word / 8)"

text \<open>
  The outer loop \<^verbatim>\<open>for (let radius = startRadius; radius < maxRadius; radius += radiusStep)\<close>,
  entered at \<open>radius\<close>. The step is at least 2, so the loop ends.
\<close>

function spiralRadii ::
    "WordItem \<Rightarrow> real \<Rightarrow> real \<Rightarrow> Area list \<Rightarrow> Config \<Rightarrow> real \<Rightarrow> (real \<times> real) option" where
  "spiralRadii word centerX centerY occupiedAreas config radius =
     (if radius < maxRadiusOf word config then
        (case spiralAngles word centerX centerY occupiedAreas config radius
                (max 8 (nat \<lfloor>radius / 8\<rfloor>)) 0 of
           Some p \<Rightarrow> Some p
         | None \<Rightarrow>
             spiralRadii word centerX centerY occupiedAreas config (radius + radiusStepOf word))
      else None)"
  by pat_completeness auto
termination
proof (relation "measure (\<lambda>(word, centerX, centerY, occupiedAreas, config, radius).
                   nat \<lceil>(maxRadiusOf word config - radius) / radiusStepOf word\<rceil>)")
  show "wf (measure (\<lambda>(word, centerX, centerY, occupiedAreas, config, radius).
                   nat \<lceil>(maxRadiusOf word config - radius) / radiusStepOf word\<rceil>))"
    by simp
next
  fix word :: WordItem and centerX centerY :: real and occupiedAreas :: "Area list"
    and config :: Config and radius :: real
  assume less: "radius < maxRadiusOf word config"
  define s where "s = radiusStepOf word"
  define d where "d = (maxRadiusOf word config - radius) / s"
  have s: "0 < s"
    by (simp add: s_def radiusStepOf_def)
  have d: "0 < d"
    using less s by (simp add: d_def)
  have "(maxRadiusOf word config - (radius + s)) / s = d - 1"
    using s by (simp add: d_def field_simps)
  moreover have "nat \<lceil>d - 1\<rceil> < nat \<lceil>d\<rceil>"
    using d by linarith
  ultimately show "((word, centerX, centerY, occupiedAreas, config, radius + radiusStepOf word),
        (word, centerX, centerY, occupiedAreas, config, radius))
      \<in> measure (\<lambda>(word, centerX, centerY, occupiedAreas, config, radius).
                   nat \<lceil>(maxRadiusOf word config - radius) / radiusStepOf word\<rceil>)"
    by (simp add: s_def d_def)
qed

declare spiralRadii.simps [simp del]

definition findPositionOrderedSpiral ::
    "WordItem \<Rightarrow> real \<Rightarrow> real \<Rightarrow> Area list \<Rightarrow> Config \<Rightarrow> (real \<times> real) option" where
  "findPositionOrderedSpiral word centerX centerY occupiedAreas config =
     (let startRadius = max (itemFontSize word / 2) 20
      in spiralRadii word centerX centerY occupiedAreas config startRadius)"

text \<open>
  One round of the loop of \<^verbatim>\<open>smartLayoutWords\<close>. \<open>positionFor\<close> is the branch on
  \<^verbatim>\<open>i === 0\<close>: the centre for the first word, the spiral search for the others.
  \<open>clampIntoCanvas\<close> is the pair of assignments under \<^verbatim>\<open>if (placed)\<close>.
\<close>

definition positionFor ::
    "Config \<Rightarrow> nat \<Rightarrow> WordItem \<Rightarrow> Area list \<Rightarrow> (real \<times> real) option" where
  "positionFor config i word occupiedAreas =
     (let centerX = cfgWidth config / 2;
          centerY = cfgHeight config / 2
      in if i = 0
         then Some (centerX - itemWidth word / 2, centerY - itemHeight word / 2)
         else findPositionOrderedSpiral word centerX centerY occupiedAreas config)"

definition clampIntoCanvas :: "Config \<Rightarrow> WordItem \<Rightarrow> WordItem" where
  "clampIntoCanvas config word =
     word\<lparr>itemX := max (cfgWordGap config)
                      (min (cfgWidth config - itemWidth word - cfgWordGap config) (itemX word)),
          itemY := max (cfgWordGap config)
                      (min (cfgHeight config - itemHeight word - cfgWordGap config) (itemY word))\<rparr>"

text \<open>
  The loop of \<^verbatim>\<open>smartLayoutWords\<close> from index \<open>i\<close> on; the state is the pair of
  \<^verbatim>\<open>occupiedAreas\<close> and \<^verbatim>\<open>layoutedWords\<close>. A word that is not placed is skipped.
\<close>

fun layoutFrom ::
    "Config \<Rightarrow> nat \<Rightarrow> WordItem list \<Rightarrow> Area list \<times> WordItem list \<Rightarrow> Area list \<times> WordItem list"
    where
  "layoutFrom config i [] state = state"
| "layoutFrom config i (word # rest) state =
     (case positionFor config i word (fst state) of
        None \<Rightarrow> layoutFrom config (i + 1) rest state
      | Some p \<Rightarrow>
          (let placed = clampIntoCanvas config (word\<lparr>itemX := fst p, itemY := snd p\<rparr>);
               wordArea = paddedArea placed (recordedGap config placed)
           in layoutFrom config (i + 1) rest (fst state @ [wordArea], snd state @ [placed])))"

definition smartLayoutWords :: "WordItem list \<Rightarrow> Config \<Rightarrow> WordItem list" where
  "smartLayoutWords wordItems config =
     (let sortedWords = sortDescending itemFontSize wordItems
      in snd (layoutFrom config 0 sortedWords ([], [])))"

section \<open>The default configuration\<close>

text \<open>The field \<^verbatim>\<open>defaultOptions\<close> of the class.\<close>

definition defaultOptions :: Config where
  "defaultOptions =
     \<lparr>cfgTheme = ascii ''default'', cfgShape = ascii ''rectangle'', cfgWordGap = 3,
      cfgFontSize = \<lparr>rangeMin = 16, rangeMax = 66\<rparr>,
      cfgAngleRange = \<lparr>rangeMin = - 45, rangeMax = 45\<rparr>, cfgAngleStep = 15,
      cfgOutputPath = ascii ''./wordcloud.svg'', cfgWidth = 800, cfgHeight = 600\<rparr>"

section \<open>Rendering and the pipeline\<close>

text \<open>
  What the generator takes from its environment: the results of \<^verbatim>\<open>Math.random()\<close> in call
  order, the length at which the engine refuses to grow an array, the conversion of a
  number to a string in a template literal, \<^verbatim>\<open>path.extname\<close>, and \<^verbatim>\<open>saveFile\<close>, which
  writes the content and returns the final path or throws an error with a message.
\<close>

record Env =
  envRandom :: "nat \<Rightarrow> real"
  envArrayLimit :: nat
  envNumberToString :: "real \<Rightarrow> jsstring"
  envExtname :: "jsstring \<Rightarrow> jsstring"
  envSaveFile :: "jsstring \<Rightarrow> jsstring \<Rightarrow> jsstring + jsstring"

text \<open>\<^verbatim>\<open>xs.join(sep)\<close>.\<close>

fun joinWith :: "jsstring \<Rightarrow> jsstring list \<Rightarrow> jsstring" where
  "joinWith sep [] = []"
| "joinWith sep [x] = x"
| "joinWith sep (x # y # ys) = x @ sep @ joinWith sep (y # ys)"

text \<open>
  The callback of \<^verbatim>\<open>words.map\<close> in \<^verbatim>\<open>generateSVG\<close>: one \<^verbatim>\<open>text\<close> element. The
  template literal is cut after the start tag: \<open>svgTextOpen\<close> is the part up to the
  \<^verbatim>\<open>>\<close> that closes the start tag, \<open>svgElement\<close> the whole element.
\<close>

definition svgTextOpen :: "(real \<Rightarrow> jsstring) \<Rightarrow> WordItem \<Rightarrow> jsstring" where
  "svgTextOpen numberToString word =
     (let x = itemX word + itemWidth word / 2;
          y = itemY word + itemHeight word / 2;
          fontWeight = (if itemFrequency word > 3 then ascii ''bold'' else ascii ''normal'')
      in ascii ''<text x='' @ [34] @ numberToString x @ [34] @ ascii '' y='' @ [34] @
         numberToString y @ [34] @ ascii '' '' @ [10] @
         ascii ''                    font-family='' @ [34, 39] @
         ascii ''Microsoft YaHei'' @ [39] @ ascii '', '' @ [39] @ ascii ''PingFang SC'' @
         [39] @ ascii '', '' @ [39] @ ascii ''SimHei'' @ [39] @
         ascii '', Arial, sans-serif'' @ [34] @ ascii '' '' @ [10] @
         ascii ''                    font-size='' @ [34] @
         numberToString (itemFontSize word) @ [34] @ ascii '' '' @ [10] @
         ascii ''                    fill='' @ [34] @
         (case itemColor word of None \<Rightarrow> ascii ''undefined'' | Some c \<Rightarrow> c) @
         [34] @ ascii '' '' @ [10] @ ascii ''                    text-anchor='' @ [34] @
         ascii ''middle'' @ [34] @ ascii '' '' @ [10] @
         ascii ''                    dominant-baseline='' @ [34] @ ascii ''middle'' @
         [34, 10] @ ascii ''                    font-weight='' @ [34] @ fontWeight @
         [34, 10] @ ascii ''                    transform='' @ [34] @ ascii ''rotate('' @
         numberToString (itemAngle word) @ ascii '' '' @ numberToString x @ ascii '' '' @
         numberToString y @ ascii '')'' @ [34] @ ascii ''>'')"

definition svgElement :: "(real \<Rightarrow> jsstring) \<Rightarrow> WordItem \<Rightarrow> jsstring" where
  "svgElement numberToString word =
     svgTextOpen numberToString word @ [10] @ ascii ''                '' @
     escapeXml (itemText word) @ [10] @ ascii ''              </text>''"

text \<open>
  \<^verbatim>\<open>generateSVG\<close>. The template literal is cut before the elements: \<open>svgDocumentOpen\<close> is
  the part of the document in front of them.
\<close>

definition svgDocumentOpen :: "(real \<Rightarrow> jsstring) \<Rightarrow> Config \<Rightarrow> jsstring" where
  "svgDocumentOpen numberToString config =
     ascii ''<?xml'' @ ascii '' version='' @ [34] @ ascii ''1.0'' @ [34] @
     ascii '' encoding='' @ [34] @ ascii ''UTF-8'' @ [34] @ ascii ''?>'' @ [10] @
     ascii ''<svg width='' @ [34] @ numberToString (cfgWidth config) @ [34] @
     ascii '' height='' @ [34] @ numberToString (cfgHeight config) @ [34] @
     ascii '' '' @ [10] @ ascii ''     xmlns='' @ [34] @
     ascii ''http://www.w3.org/2000/svg'' @ [34, 10] @ ascii ''     viewBox='' @
     [34] @ ascii ''0 0 '' @ numberToString (cfgWidth config) @ ascii '' '' @
     numberToString (cfgHeight config) @ [34] @ ascii ''>'' @ [10] @
     ascii ''  <defs>'' @ [10] @ ascii ''    <style>'' @ [10] @
     ascii ''      <![CDATA['' @ [10] @ ascii ''        text {'' @ [10] @
     ascii ''          font-family: '' @ [39] @ ascii ''Microsoft YaHei'' @ [39] @
     ascii '', '' @ [39] @ ascii ''PingFang SC'' @ [39] @ ascii '', '' @ [39] @
     ascii ''SimHei'' @ [39] @ ascii '', Arial, sans-serif;'' @ [10] @
     ascii ''          user-select: none;'' @ [10] @ ascii ''        }'' @ [10] @
     ascii ''        svg {'' @ [10] @ ascii ''          background-color: white;'' @
     [10] @ ascii ''        }'' @ [10] @ ascii ''      ]]>'' @ [10] @
     ascii ''    </style>'' @ [10] @ ascii ''  </defs>'' @ [10] @
     ascii ''  <rect width='' @ [34] @ ascii ''100%'' @ [34] @ ascii '' height='' @
     [34] @ ascii ''100%'' @ [34] @ ascii '' fill='' @ [34] @ ascii ''white'' @ [34] @
     ascii ''/>'' @ [10] @ ascii ''  ''"

definition generateSVG :: "(real \<Rightarrow> jsstring) \<Rightarrow> WordItem list \<Rightarrow> Config \<Rightarrow> jsstring" where
  "generateSVG numberToString words config =
     (let svgElements = joinWith [10] (map (svgElement numberToString) words)
      in svgDocumentOpen numberToString config @ svgElements @ [10] @ ascii ''</svg>'')"

text \<open>\<^verbatim>\<open>s.endsWith(suffix)\<close>, and \<^verbatim>\<open>s.replace(pattern, replacement)\<close> for a string pattern,
  which replaces the first occurrence.\<close>

definition endsWith :: "jsstring \<Rightarrow> jsstring \<Rightarrow> bool" where
  "endsWith s suffix \<longleftrightarrow>
     length suffix \<le> length s \<and> drop (length s - length suffix) s = suffix"

fun replaceFirst :: "jsstring \<Rightarrow> jsstring \<Rightarrow> jsstring \<Rightarrow> jsstring" where
  "replaceFirst pattern replacement [] = (if pattern = [] then replacement else [])"
| "replaceFirst pattern replacement (c # cs) =
     (if take (length pattern) (c # cs) = pattern
      then replacement @ drop (length pattern) (c # cs)
      else c # replaceFirst pattern replacement cs)"

text \<open>\<^verbatim>\<open>{ ...this.defaultOptions, ...options }\<close>: a field of the options that is present
  replaces the default.\<close>

definition mergeOptions :: "Config \<Rightarrow> WordCloudOptions \<Rightarrow> Config" where
  "mergeOptions defaults options =
     \<lparr>cfgTheme = (case optTheme options of None \<Rightarrow> cfgTheme defaults | Some v \<Rightarrow> v),
      cfgShape = (case optShape options of None \<Rightarrow> cfgShape defaults | Some v \<Rightarrow> v),
      cfgWordGap = (case optWordGap options of None \<Rightarrow> cfgWordGap defaults | Some v \<Rightarrow> v),
      cfgFontSize = (case optFontSize options of None \<Rightarrow> cfgFontSize defaults | Some v \<Rightarrow> v),
      cfgAngleRange =
        (case optAngleRange options of None \<Rightarrow> cfgAngleRange defaults | Some v \<Rightarrow> v),
      cfgAngleStep =
        (case optAngleStep options of None \<Rightarrow> cfgAngleStep defaults | Some v \<Rightarrow> v),
      cfgOutputPath =
        (case optOutputPath options of None \<Rightarrow> cfgOutputPath defaults | Some v \<Rightarrow> v),
      cfgWidth = (case optWidth options of None \<Rightarrow> cfgWidth defaults | Some v \<Rightarrow> v),
      cfgHeight = (case optHeight options of None \<Rightarrow> cfgHeight defaults | Some v \<Rightarrow> v)\<rparr>"

definition svgOutputPath :: "Env \<Rightarrow> Config \<Rightarrow> Config" where
  "svgOutputPath env config =
     (if \<not> endsWith (cfgOutputPath config) (ascii ''.svg'')
      then let ext = envExtname env (cfgOutputPath config)
           in config\<lparr>cfgOutputPath := replaceFirst ext (ascii ''.svg'') (cfgOutputPath config)\<rparr>
      else config)"

text \<open>
  \<^verbatim>\<open>generate\<close>. The result is \<open>Inl e\<close> when the run ends in \<open>e\<close> (for the thrown errors:
  the error the \<^verbatim>\<open>catch\<close> block rethrows with the prefix of a generation failure), and
  \<open>Inr path\<close> when it returns the path of the written file.
\<close>

definition generate :: "Env \<Rightarrow> jsstring \<Rightarrow> WordCloudOptions \<Rightarrow> error + jsstring" where
  "generate env txt options =
     (let config = svgOutputPath env (mergeOptions defaultOptions options);
          wordFrequencies = analyzeWordFrequency txt
      in if length wordFrequencies = 0 then Inl EmptyInput
         else
           case prepareWordItems (envRandom env) (envArrayLimit env) wordFrequencies config of
             Inl e \<Rightarrow> Inl e
           | Inr wordItems \<Rightarrow>
               (let layoutedWords = smartLayoutWords wordItems config;
                    svgContent = generateSVG (envNumberToString env) layoutedWords config
                in case envSaveFile env svgContent (cfgOutputPath config) of
                     Inl message \<Rightarrow> Inl (SaveFailure message)
                   | Inr path \<Rightarrow> Inr path))"

section \<open>Specification-level notions\<close>


text \<open>
  A word lies within the margin of 10 that the spiral search keeps to the canvas border.
\<close>

definition withinMargin :: "Config \<Rightarrow> WordItem \<Rightarrow> bool" where
  "withinMargin config word \<longleftrightarrow>
     10 \<le> itemX word \<and> 10 \<le> itemY word \<and>
     itemX word + itemWidth word \<le> cfgWidth config - 10 \<and>
     itemY word + itemHeight word \<le> cfgHeight config - 10"

text \<open>
  A later word is clear of an earlier one when the later word's box, padded with the gap
  the search tested it with, does not meet the region recorded for the earlier word.
\<close>

definition clearOf :: "Config \<Rightarrow> WordItem \<Rightarrow> WordItem \<Rightarrow> bool" where
  "clearOf config earlier later \<longleftrightarrow>
     \<not> isOverlapping (paddedArea later (searchGap config later))
                      (paddedArea earlier (recordedGap config earlier))"

text \<open>What the search accepts: a position inside the margin whose padded box meets no
  recorded region.\<close>

definition acceptable :: "Config \<Rightarrow> Area list \<Rightarrow> WordItem \<Rightarrow> bool" where
  "acceptable config occupiedAreas word \<longleftrightarrow>
     withinMargin config word \<and>
     (\<forall>area \<in> set occupiedAreas. \<not> isOverlapping (paddedArea word (searchGap config word)) area)"

text \<open>The word moved to the centre of the canvas.\<close>

definition centred :: "Config \<Rightarrow> WordItem \<Rightarrow> WordItem" where
  "centred config word =
     word\<lparr>itemX := cfgWidth config / 2 - itemWidth word / 2,
          itemY := cfgHeight config / 2 - itemHeight word / 2\<rparr>"

text \<open>
  The words the analyzer counts (the constant \<^verbatim>\<open>words\<close> of \<^verbatim>\<open>analyzeWordFrequency\<close>),
  the position of the first occurrence of a word in a list, and the ranking order: a
  larger count first, and among equal counts the word that occurs first.
\<close>

definition wordsOf :: "jsstring \<Rightarrow> jsstring list" where
  "wordsOf txt = filter (\<lambda>word. length word > 0) (splitWhiteSpace txt)"

definition firstIndex :: "'a list \<Rightarrow> 'a \<Rightarrow> nat" where
  "firstIndex xs x = length (takeWhile (\<lambda>y. y \<noteq> x) xs)"

definition rankedBefore :: "jsstring list \<Rightarrow> jsstring \<times> nat \<Rightarrow> jsstring \<times> nat \<Rightarrow> bool" where
  "rankedBefore tokens p q \<longleftrightarrow>
     snd q \<le> snd p \<and> (snd p = snd q \<longrightarrow> firstIndex tokens (fst p) < firstIndex tokens (fst q))"

text \<open>The counting step on a word that \<^verbatim>\<open>trim\<close> leaves as it is.\<close>

definition bumpWord :: "(jsstring \<times> nat) list \<Rightarrow> jsstring \<Rightarrow> (jsstring \<times> nat) list" where
  "bumpWord m w = mapSet m w ((case mapGet m w of None \<Rightarrow> 0 | Some n \<Rightarrow> n) + 1)"

text \<open>
  The largest size the basic generator allows, \<^verbatim>\<open>min + 0.8 * (max - min)\<close>; and the rule of
  colour selection by rank buckets: the first five ranks index the first five colours, ranks
  5 to 14 and words above half the largest count index the first ten, all others the full
  palette.
\<close>

definition maxAllowedSize :: "Range \<Rightarrow> real" where
  "maxAllowedSize fontSizeRange =
     rangeMin fontSizeRange + 0.8 * (rangeMax fontSizeRange - rangeMin fontSizeRange)"

definition rankBucketColor :: "jsstring list \<Rightarrow> nat \<Rightarrow> real \<Rightarrow> real \<Rightarrow> jsstring option" where
  "rankBucketColor colors index frequency maxFreq =
     (if index < 5 then arrayGet colors (int (index mod (min 5 (length colors))))
      else if index < 15 \<or> frequency / maxFreq > 0.5
      then arrayGet colors (int (index mod (min 10 (length colors))))
      else arrayGet colors (int (index mod (length colors))))"

section \<open>Example inputs\<close>

text \<open>
  The text \<^verbatim>\<open>a a b\<close> with \<^verbatim>\<open>wordGap: 0\<close> and \<^verbatim>\<open>fontSize: {min: 12, max: 45}\<close>: the
  prepared items, and where the layout puts them.
\<close>

definition overlapConfig :: Config where
  "overlapConfig = defaultOptions\<lparr>cfgWordGap := 0, cfgFontSize := \<lparr>rangeMin = 12, rangeMax = 45\<rparr>\<rparr>"

definition wordA :: WordItem where
  "wordA = \<lparr>itemText = ascii ''a'', itemFrequency = 2, itemFontSize = 38,
            itemColor = Some (ascii ''#FF4444''), itemAngle = 0, itemX = 0, itemY = 0,
            itemWidth = 23.04, itemHeight = 46.08\<rparr>"

definition wordB :: WordItem where
  "wordB = \<lparr>itemText = ascii ''b'', itemFrequency = 1, itemFontSize = 12,
            itemColor = Some (ascii ''#2196F3''), itemAngle = 0, itemX = 0, itemY = 0,
            itemWidth = 7.2, itemHeight = 14.4\<rparr>"

definition placedA :: WordItem where
  "placedA = wordA\<lparr>itemX := 9712 / 25, itemY := 6924 / 25\<rparr>"

definition placedB :: WordItem where
  "placedB = wordB\<lparr>itemX := 2082 / 5, itemY := 1464 / 5\<rparr>"

text \<open>
  A single word of 32 Latin letters under the default configuration: the prepared item,
  and where the layout puts it.
\<close>

definition longWord :: WordItem where
  "longWord = \<lparr>itemText = ascii ''abcdefghijklmnopqrstuvwxyzabcdef'', itemFrequency = 1,
               itemFontSize = 41, itemColor = Some (ascii ''#FF4444''), itemAngle = 0,
               itemX = 0, itemY = 0, itemWidth = 3936 / 5, itemHeight = 246 / 5\<rparr>"


text \<open>
  The word \<^verbatim>\<open>abcd\<close> on a canvas of width 100: the prepared item, and where the layout
  puts it.
\<close>

definition narrowConfig :: Config where
  "narrowConfig = defaultOptions\<lparr>cfgWidth := 100\<rparr>"

definition tightWord :: WordItem where
  "tightWord = \<lparr>itemText = ascii ''abcd'', itemFrequency = 1, itemFontSize = 41,
                itemColor = Some (ascii ''#FF4444''), itemAngle = 0, itemX = 0, itemY = 0,
                itemWidth = 492 / 5, itemHeight = 246 / 5\<rparr>"

definition placedTight :: WordItem where
  "placedTight = tightWord\<lparr>itemX := 3, itemY := 1377 / 5\<rparr>"

text \<open>
  An environment whose arrays grow to the largest length of ECMAScript and whose file
  system accepts every write, the empty options, and the options \<^verbatim>\<open>{angleStep: 0}\<close>.
\<close>

definition exampleEnv :: Env where
  "exampleEnv = \<lparr>envRandom = (\<lambda>k. 1 / 2), envArrayLimit = 4294967295,
                  envNumberToString = (\<lambda>v. []), envExtname = (\<lambda>p. []),
                  envSaveFile = (\<lambda>content path. Inr path)\<rparr>"

definition noOptions :: WordCloudOptions where
  "noOptions = \<lparr>optTheme = None, optShape = None, optWordGap = None, optFontSize = None,
                optAngleRange = None, optAngleStep = None, optOutputPath = None,
                optWidth = None, optHeight = None\<rparr>"

definition zeroStepOptions :: WordCloudOptions where
  "zeroStepOptions = noOptions\<lparr>optAngleStep := Some 0\<rparr>"

text \<open>
  The text \<^verbatim>\<open>a a b\<close> with \<^verbatim>\<open>fontSize: {min: 8, max: 9}\<close>, and the items prepared from it.
\<close>

definition tinyRangeConfig :: Config where
  "tinyRangeConfig = defaultOptions\<lparr>cfgFontSize := \<lparr>rangeMin = 8, rangeMax = 9\<rparr>\<rparr>"

definition tinyA :: WordItem where
  "tinyA = \<lparr>itemText = ascii ''a'', itemFrequency = 2, itemFontSize = 9,
            itemColor = Some (ascii ''#FF4444''), itemAngle = 0, itemX = 0, itemY = 0,
            itemWidth = 132 / 25, itemHeight = 264 / 25\<rparr>"

definition tinyB :: WordItem where
  "tinyB = \<lparr>itemText = ascii ''b'', itemFrequency = 1, itemFontSize = 8,
            itemColor = Some (ascii ''#2196F3''), itemAngle = 0, itemX = 0, itemY = 0,
            itemWidth = 24 / 5, itemHeight = 48 / 5\<rparr>"

section \<open>XML escaping\<close>












section \<open>Rounding to a double\<close>

lemma roundHalfEven_of_int: "roundHalfEven (of_int n) = n"
  by (simp add: roundHalfEven_def)

lemma roundHalfEven_le:
  assumes "q \<le> of_int N"
  shows "roundHalfEven q \<le> N"
proof (cases "q = of_int N")
  case True
  then show ?thesis by (simp add: roundHalfEven_of_int)
next
  case False
  with assms have "q < of_int N" by simp
  then have "\<lfloor>q\<rfloor> < N" by (simp add: floor_less_iff)
  then show ?thesis by (simp add: roundHalfEven_def Let_def)
qed

lemma binade_bounds:
  assumes "v \<noteq> 0"
  shows "2 powr of_int \<lfloor>log 2 \<bar>v\<bar>\<rfloor> \<le> \<bar>v\<bar>" "\<bar>v\<bar> < 2 powr (of_int \<lfloor>log 2 \<bar>v\<bar>\<rfloor> + 1)"
proof -
  have pos: "0 < \<bar>v\<bar>" using assms by simp
  have "of_int \<lfloor>log 2 \<bar>v\<bar>\<rfloor> \<le> log 2 \<bar>v\<bar>" by simp
  then have "2 powr of_int \<lfloor>log 2 \<bar>v\<bar>\<rfloor> \<le> 2 powr log 2 \<bar>v\<bar>" by (simp del: of_int_floor_le)
  then show "2 powr of_int \<lfloor>log 2 \<bar>v\<bar>\<rfloor> \<le> \<bar>v\<bar>" using pos by simp
  have "log 2 \<bar>v\<bar> < of_int \<lfloor>log 2 \<bar>v\<bar>\<rfloor> + 1" by linarith
  then have "2 powr log 2 \<bar>v\<bar> < 2 powr (of_int \<lfloor>log 2 \<bar>v\<bar>\<rfloor> + 1)" by simp
  then show "\<bar>v\<bar> < 2 powr (of_int \<lfloor>log 2 \<bar>v\<bar>\<rfloor> + 1)" using pos by simp
qed

lemma binade_eq:
  assumes "2 powr of_int k \<le> \<bar>v\<bar>" "\<bar>v\<bar> < 2 powr (of_int k + 1)"
  shows "\<lfloor>log 2 \<bar>v\<bar>\<rfloor> = k"
proof -
  have pos: "0 < \<bar>v\<bar>" using assms(1) by (smt (verit) powr_gt_zero)
  have "log 2 (2 powr of_int k) \<le> log 2 \<bar>v\<bar>"
    using assms(1) pos by (subst log_le_cancel_iff) simp_all
  then have 1: "of_int k \<le> log 2 \<bar>v\<bar>" by simp
  have "log 2 \<bar>v\<bar> < log 2 (2 powr (of_int k + 1))"
    using assms(2) pos by (subst log_less_cancel_iff) simp_all
  then have 2: "log 2 \<bar>v\<bar> < of_int k + 1" by simp
  from 1 2 show ?thesis by linarith
qed

lemma powr_int_diff:
  assumes "a \<le> b"
  shows "(2::real) powr of_int b / 2 powr of_int a = of_int (2 ^ nat (b - a))"
proof -
  have "(2::real) powr of_int b / 2 powr of_int a = 2 powr (of_int b - of_int a)"
    by (simp add: powr_diff)
  also have "of_int b - of_int a = (real (nat (b - a)))" using assms by simp
  also have "(2::real) powr real (nat (b - a)) = 2 ^ nat (b - a)" by (simp add: powr_realpow)
  finally show ?thesis by simp
qed

lemma powr_int_less: "(2::real) powr of_int a < 2 powr of_int b \<longleftrightarrow> a < b"
  by simp

text \<open>An integer below \<open>2 ^ 53\<close> in absolute value is a double.\<close>

lemma roundDouble_of_int:
  assumes "\<bar>n\<bar> < 2 ^ 53"
  shows "roundDouble (of_int n) = of_int n"
proof (cases "n = 0")
  case True
  then show ?thesis by (simp add: roundDouble_def)
next
  case False
  define v :: real where "v = of_int n"
  define e where "e = ulpExponent v"
  have v0: "v \<noteq> 0" using False by (simp add: v_def)
  define c :: int where "c = 53"
  have c: "(2::real) powr of_int c = 2 ^ 53" by (simp add: c_def powr_numeral)
  have "\<bar>v\<bar> = of_int \<bar>n\<bar>" by (simp add: v_def)
  also have "\<dots> < of_int (2 ^ 53)" using assms by (simp only: of_int_less_iff)
  also have "\<dots> = (2::real) powr of_int c" by (simp add: c)
  finally have "\<bar>v\<bar> < 2 powr of_int c" .
  with binade_bounds(1)[OF v0] have "2 powr of_int \<lfloor>log 2 \<bar>v\<bar>\<rfloor> < (2::real) powr of_int c"
    by (rule le_less_trans)
  then have "\<lfloor>log 2 \<bar>v\<bar>\<rfloor> < c" by (simp only: powr_int_less)
  then have e: "e \<le> 0" by (simp add: e_def ulpExponent_def c_def)
  have "v / 2 powr of_int e = v * (1 / 2 powr of_int e)" by simp
  also have "1 / 2 powr of_int e = (2::real) ^ nat (0 - e)"
    using powr_int_diff[OF e] by simp
  finally have q: "v / 2 powr of_int e = of_int (n * 2 ^ nat (0 - e))"
    by (simp add: v_def)
  have "roundDouble v = of_int (roundHalfEven (v / 2 powr of_int e)) * 2 powr of_int e"
    using v0 by (simp add: roundDouble_def e_def)
  also have "\<dots> = (v / 2 powr of_int e) * 2 powr of_int e"
    by (simp only: q roundHalfEven_of_int)
  also have "\<dots> = v" by simp
  finally show ?thesis by (simp add: v_def)
qed

lemma roundDouble_numeral:
  "(numeral k :: int) < 9007199254740992 \<Longrightarrow> roundDouble (numeral k) = numeral k"
  "(numeral k :: int) < 9007199254740992 \<Longrightarrow> roundDouble (- numeral k) = - numeral k"
  using roundDouble_of_int[of "numeral k"] roundDouble_of_int[of "- numeral k"] by simp_all

lemma roundDouble_0: "roundDouble 0 = 0"
  by (simp add: roundDouble_def)

text \<open>Rounding does not pass a double: what lies below a double rounds to at most it.\<close>

lemma roundDouble_le:
  assumes le: "v \<le> d" and double: "roundDouble d = d"
  shows "roundDouble v \<le> d"
proof (cases "v = 0")
  case True
  with le show ?thesis by (simp add: roundDouble_def)
next
  case v0: False
  define e where "e = ulpExponent v"
  define u :: real where "u = 2 powr of_int e"
  have u: "0 < u" by (simp add: u_def)
  have rv: "roundDouble v = of_int (roundHalfEven (v / u)) * u"
    using v0 by (simp add: roundDouble_def e_def u_def)
  show ?thesis
  proof (cases "d = 0")
    case True
    with le have "v / u \<le> of_int 0" using u by (simp add: divide_le_0_iff)
    then have "roundHalfEven (v / u) \<le> 0" by (rule roundHalfEven_le)
    then have "of_int (roundHalfEven (v / u)) * u \<le> 0"
      using u by (simp add: mult_le_0_iff)
    with True rv show ?thesis by simp
  next
    case d0: False
    define e' where "e' = ulpExponent d"
    define m where "m = roundHalfEven (d / 2 powr of_int e')"
    have d: "d = of_int m * 2 powr of_int e'"
      using double d0 by (simp add: roundDouble_def e'_def m_def)
    show ?thesis
    proof (cases "e \<le> e'")
      case True
      have "d / u = of_int m * (2 powr of_int e' / 2 powr of_int e)"
        by (simp add: d u_def)
      also have "\<dots> = of_int (m * 2 ^ nat (e' - e))"
        by (subst powr_int_diff[OF True]) simp
      finally have du: "d / u = of_int (m * 2 ^ nat (e' - e))" .
      have "v / u \<le> d / u" using le u by (simp add: divide_right_mono)
      then have "roundHalfEven (v / u) \<le> m * 2 ^ nat (e' - e)"
        unfolding du by (rule roundHalfEven_le)
      then have "(of_int (roundHalfEven (v / u)) :: real) \<le> of_int (m * 2 ^ nat (e' - e))"
        by (simp only: of_int_le_iff)
      then have "of_int (roundHalfEven (v / u)) * u \<le> of_int (m * 2 ^ nat (e' - e)) * u"
        using u by (simp only: mult_le_cancel_right_pos)
      also have "\<dots> = d" using du u by (metis nonzero_divide_eq_eq less_numeral_extra(3))
      finally show ?thesis by (simp add: rv)
    next
      case False
      define b where "b = \<lfloor>log 2 \<bar>v\<bar>\<rfloor>"
      define b' where "b' = \<lfloor>log 2 \<bar>d\<bar>\<rfloor>"
      from False have ee: "e' < e" by simp
      have "b' - 52 \<le> e'" by (simp add: e'_def ulpExponent_def b'_def)
      moreover have eb: "e = b - 52"
        using ee by (simp add: e_def e'_def ulpExponent_def b_def max_def split: if_splits)
      ultimately have bb: "b' + 1 \<le> b" using ee by simp
      have "\<bar>d\<bar> < 2 powr (of_int b' + 1)" unfolding b'_def by (rule binade_bounds(2)[OF d0])
      also have "\<dots> \<le> 2 powr of_int b" using bb by (simp del: of_int_add add: of_int_add[symmetric])
      finally have dlt: "\<bar>d\<bar> < 2 powr of_int b" .
      have vge: "2 powr of_int b \<le> \<bar>v\<bar>" unfolding b_def by (rule binade_bounds(1)[OF v0])
      have vneg: "v \<le> - (2 powr of_int b)"
        using le dlt vge by (simp add: abs_if split: if_splits)
      have "2 powr of_int b / u = of_int (2 ^ nat (b - e))"
        unfolding u_def by (rule powr_int_diff) (simp add: eb)
      then have bu: "2 powr of_int b / u = of_int (2 ^ 52)" by (simp add: eb)
      have "v / u \<le> - (2 powr of_int b) / u"
        by (rule divide_right_mono[OF vneg]) (use u in simp)
      also have "\<dots> = of_int (- (2 ^ 52))" using bu by simp
      finally have "roundHalfEven (v / u) \<le> - (2 ^ 52)" by (rule roundHalfEven_le)
      then have "(of_int (roundHalfEven (v / u)) :: real) \<le> of_int (- (2 ^ 52))"
        by (simp only: of_int_le_iff)
      then have "of_int (roundHalfEven (v / u)) * u \<le> of_int (- (2 ^ 52)) * u"
        using u by (simp only: mult_le_cancel_right_pos)
      also have "\<dots> = - (2 powr of_int b)" using bu u by (simp add: field_simps)
      also have "\<dots> < d" using dlt by (simp add: abs_if split: if_splits)
      finally show ?thesis by (simp add: rv)
    qed
  qed
qed

lemma roundHalfEven_near:
  assumes "\<bar>q - of_int N\<bar> < 1 / 2"
  shows "roundHalfEven q = N"
proof (cases "of_int N \<le> q")
  case True
  with assms have "\<lfloor>q\<rfloor> = N" by linarith
  with assms True show ?thesis by (simp add: roundHalfEven_def)
next
  case False
  with assms have "\<lfloor>q\<rfloor> = N - 1" by linarith
  with assms False show ?thesis by (simp add: roundHalfEven_def)
qed

text \<open>
  Near 45 the doubles are \<open>2 powr - 47\<close> apart, so adding the double \<open>2 powr - 54\<close>
  changes nothing.
\<close>

lemma roundDouble_absorbs: "roundDouble (- 45 + 1 / 2 ^ 54) = - 45"
proof -
  define s :: real where "s = 1 / 2 ^ 54"
  define v :: real where "v = - 45 + s"
  define k :: int where "k = 2 ^ 47"
  have s: "0 < s" "s < 1 / 2" by (simp_all add: s_def)
  have v: "- 45 < v" "v < - 44" using s by (simp_all add: v_def)
  then have v0: "v \<noteq> 0" by simp
  have "\<lfloor>log 2 \<bar>v\<bar>\<rfloor> = 5"
  proof (rule binade_eq)
    have "(2::real) powr of_int 5 = 32" by (simp add: powr_numeral)
    with v show "2 powr of_int 5 \<le> \<bar>v\<bar>" by simp
    have "(2::real) powr (of_int 5 + 1) = 64" by (simp add: powr_numeral)
    with v show "\<bar>v\<bar> < 2 powr (of_int 5 + 1)" by simp
  qed
  then have e: "ulpExponent v = - 47" by (simp add: ulpExponent_def)
  have "(2::real) powr of_int 0 / 2 powr of_int (- 47) = of_int (2 ^ nat (0 - (- 47)))"
    by (rule powr_int_diff) simp
  then have u: "(2::real) powr of_int (- 47) = 1 / of_int k" by (simp add: k_def field_simps)
  have k: "0 < (of_int k :: real)" by (simp add: k_def)
  have sk: "s * of_int k < 1 / 2" "0 < s * of_int k" by (simp_all add: s_def k_def)
  have "v / (1 / of_int k) - of_int (- 45 * k) = s * of_int k"
    by (simp add: v_def algebra_simps)
  with sk have "\<bar>v / (1 / of_int k) - of_int (- 45 * k)\<bar> < 1 / 2" by simp
  then have "roundHalfEven (v / (1 / of_int k)) = - 45 * k" by (rule roundHalfEven_near)
  moreover have "roundDouble v = of_int (roundHalfEven (v / (1 / of_int k))) * (1 / of_int k)"
    using v0 by (simp only: roundDouble_def e u if_False)
  ultimately have "roundDouble v = of_int (- 45 * k) * (1 / of_int k)" by simp
  also have "\<dots> = - 45" using k by simp
  finally show ?thesis by (simp add: v_def s_def)
qed

lemma roundHalfEven_error: "\<bar>of_int (roundHalfEven q) - q\<bar> \<le> 1 / 2"
proof -
  have bounds: "of_int \<lfloor>q\<rfloor> \<le> q" "q < of_int \<lfloor>q\<rfloor> + 1" by linarith+
  have "roundHalfEven q = \<lfloor>q\<rfloor> \<and> q - of_int \<lfloor>q\<rfloor> \<le> 1 / 2 \<or>
        roundHalfEven q = \<lfloor>q\<rfloor> + 1 \<and> 1 / 2 \<le> q - of_int \<lfloor>q\<rfloor>"
    by (simp add: roundHalfEven_def Let_def)
  then show ?thesis
  proof (elim disjE conjE)
    assume "roundHalfEven q = \<lfloor>q\<rfloor>" "q - of_int \<lfloor>q\<rfloor> \<le> 1 / 2"
    with bounds show ?thesis by simp
  next
    assume "roundHalfEven q = \<lfloor>q\<rfloor> + 1" "1 / 2 \<le> q - of_int \<lfloor>q\<rfloor>"
    with bounds show ?thesis by simp
  qed
qed

lemma roundDouble_error:
  "\<bar>roundDouble v - v\<bar> \<le> max (\<bar>v\<bar> / 2 ^ 53) (2 powr - 1075)"
proof (cases "v = 0")
  case True
  then show ?thesis by (simp add: roundDouble_def)
next
  case v0: False
  define e where "e = ulpExponent v"
  define u :: real where "u = 2 powr of_int e"
  have u: "0 < u" by (simp add: u_def)
  have "roundDouble v - v = (of_int (roundHalfEven (v / u)) - v / u) * u"
    using v0 u by (simp add: roundDouble_def e_def u_def field_simps)
  then have "\<bar>roundDouble v - v\<bar> = \<bar>of_int (roundHalfEven (v / u)) - v / u\<bar> * u"
    using u by (simp add: abs_mult)
  also have "\<dots> \<le> (1 / 2) * u"
    using roundHalfEven_error[of "v / u"] u by (intro mult_right_mono) simp_all
  finally have half: "\<bar>roundDouble v - v\<bar> \<le> u / 2" by simp
  have "u \<le> max (\<bar>v\<bar> / 2 ^ 52) (2 powr - 1074)"
  proof (cases "- 1074 \<le> \<lfloor>log 2 \<bar>v\<bar>\<rfloor> - 52")
    case True
    then have "e = \<lfloor>log 2 \<bar>v\<bar>\<rfloor> - 52" by (simp add: e_def ulpExponent_def)
    then have "u = 2 powr (of_int \<lfloor>log 2 \<bar>v\<bar>\<rfloor> - 52)" by (simp add: u_def)
    also have "\<dots> = 2 powr of_int \<lfloor>log 2 \<bar>v\<bar>\<rfloor> / 2 powr 52" by (simp add: powr_diff)
    also have "\<dots> \<le> \<bar>v\<bar> / 2 powr 52"
      using binade_bounds(1)[OF v0] by (intro divide_right_mono) simp_all
    also have "(2::real) powr 52 = 2 ^ 52" by (simp add: powr_numeral)
    finally show ?thesis by simp
  next
    case False
    then have "e = - 1074" by (simp add: e_def ulpExponent_def)
    then show ?thesis by (simp add: u_def)
  qed
  then have "u / 2 \<le> max (\<bar>v\<bar> / 2 ^ 52) (2 powr - 1074) / 2" by simp
  also have "\<dots> = max (\<bar>v\<bar> / 2 ^ 53) (2 powr - 1075)"
  proof -
    have "(2::real) powr - 1074 / 2 = 2 powr (- 1074 - 1)"
      by (subst powr_diff) simp
    then have "(2::real) powr - 1074 / 2 = 2 powr - 1075" by simp
    moreover have "\<bar>v\<bar> / 2 ^ 52 / 2 = \<bar>v\<bar> / 2 ^ 53" by simp
    ultimately show ?thesis by (simp only: max_def) (auto simp: field_simps)
  qed
  finally show ?thesis using half by simp
qed

text \<open>A positive double is at least the least positive double.\<close>

lemma positive_double_least:
  assumes "0 < v" and "roundDouble v = v"
  shows "2 powr - 1074 \<le> v"
proof -
  define e where "e = ulpExponent v"
  define m where "m = roundHalfEven (v / 2 powr of_int e)"
  have v: "v = of_int m * 2 powr of_int e"
    using assms by (simp add: roundDouble_def e_def m_def)
  with assms(1) have "0 < of_int m * (2::real) powr of_int e" by simp
  then have "0 < (of_int m :: real)" by (simp add: zero_less_mult_iff)
  then have "1 \<le> m" by simp
  then have "(1::real) \<le> of_int m" by simp
  then have "1 * 2 powr of_int e \<le> of_int m * (2::real) powr of_int e"
    by (intro mult_right_mono) simp_all
  then have "2 powr of_int e \<le> v" using v by simp
  moreover have "- 1074 \<le> e" by (simp add: e_def ulpExponent_def)
  then have "(2::real) powr - 1074 \<le> 2 powr of_int e"
    by simp
  ultimately show ?thesis by (rule order_trans[rotated])
qed

section \<open>Evaluating the examples\<close>

lemma generateAngles_default:
  assumes "7 \<le> arrayLimit"
  shows "generateAngles arrayLimit \<lparr>rangeMin = - 45, rangeMax = 45\<rparr> 15
           = Inr [- 45, - 30, - 15, 0, 15, 30, 45]"
  using assms
  by (simp add: generateAngles_def generateAnglesFrom.simps roundDouble_numeral roundDouble_0)

lemma overlap_input_prepared:
  "prepareWordItems (\<lambda>k. 0) 4294967295 (analyzeWordFrequency (ascii ''a a b'')) overlapConfig
     = Inr [wordA, wordB]"
proof -
  have "analyzeWordFrequency (ascii ''a a b'') = [(ascii ''a'', 2), (ascii ''b'', 1)]"
    by (simp add: analyzeWordFrequency_def ascii_def trim_def isWhiteSpace_def
          splitWhiteSpace_def countWord_def sortDescending_def)
  then show ?thesis
    by (simp add: prepareWordItems_def overlapConfig_def defaultOptions_def colorThemes_def
          calculateAngle_def generateAngles_default calculateFontSize_def mathPow_def
          selectColorInternal_def arrayGet_def defaultTheme_def estimateTextDimensions_def
          baseWidthOf_def isCJK_def ascii_def mathRound_def wordA_def wordB_def)
qed

lemma findPosition_first_candidate:
  assumes "max (itemFontSize word / 2) 20 = r" and "r < maxRadiusOf word config"
    and "max 8 (nat \<lfloor>r / 8\<rfloor>) = n" and "0 < n"
    and "spiralCandidate word centerX centerY occupiedAreas config r n 0 = Some p"
  shows "findPositionOrderedSpiral word centerX centerY occupiedAreas config = Some p"
proof -
  have "spiralAngles word centerX centerY occupiedAreas config r n 0 = Some p"
    using assms(4,5) by (subst spiralAngles.simps) simp
  then have "spiralRadii word centerX centerY occupiedAreas config r = Some p"
    using assms(2,3) by (subst spiralRadii.simps) simp
  then show ?thesis
    using assms(1) by (simp add: findPositionOrderedSpiral_def)
qed

lemma layoutFrom_two:
  assumes "clampIntoCanvas config (first\<lparr>itemX := cfgWidth config / 2 - itemWidth first / 2,
             itemY := cfgHeight config / 2 - itemHeight first / 2\<rparr>) = first'"
    and "findPositionOrderedSpiral second (cfgWidth config / 2) (cfgHeight config / 2)
           [paddedArea first' (recordedGap config first')] config = Some p"
    and "clampIntoCanvas config (second\<lparr>itemX := fst p, itemY := snd p\<rparr>) = second'"
  shows "snd (layoutFrom config 0 [first, second] ([], [])) = [first', second']"
  using assms by (simp add: positionFor_def Let_def)

lemma layoutFrom_one:
  assumes "clampIntoCanvas config (first\<lparr>itemX := cfgWidth config / 2 - itemWidth first / 2,
             itemY := cfgHeight config / 2 - itemHeight first / 2\<rparr>) = first'"
  shows "snd (layoutFrom config 0 [first] ([], [])) = [first']"
  using assms by (simp add: positionFor_def Let_def)

lemma overlap_layout: "smartLayoutWords [wordA, wordB] overlapConfig = [placedA, placedB]"
proof -
  have sorted: "sortDescending itemFontSize [wordA, wordB] = [wordA, wordB]"
    by (simp add: sortDescending_def wordA_def wordB_def)
  have first: "clampIntoCanvas overlapConfig
                 (wordA\<lparr>itemX := cfgWidth overlapConfig / 2 - itemWidth wordA / 2,
                        itemY := cfgHeight overlapConfig / 2 - itemHeight wordA / 2\<rparr>) = placedA"
    by (simp add: clampIntoCanvas_def overlapConfig_def defaultOptions_def wordA_def placedA_def)
  have candidate: "spiralCandidate wordB (cfgWidth overlapConfig / 2) (cfgHeight overlapConfig / 2)
      [paddedArea placedA (recordedGap overlapConfig placedA)] overlapConfig 20 8 0
        = Some (2082 / 5, 1464 / 5)"
    by (simp add: spiralCandidate_def wordA_def wordB_def overlapConfig_def defaultOptions_def
          paddedArea_def searchGap_def recordedGap_def isOverlapping_def placedA_def)
  have floor: "\<lfloor>(20::real) / 8\<rfloor> = 2" by linarith
  have found: "findPositionOrderedSpiral wordB (cfgWidth overlapConfig / 2)
      (cfgHeight overlapConfig / 2) [paddedArea placedA (recordedGap overlapConfig placedA)]
      overlapConfig = Some (2082 / 5, 1464 / 5)"
  proof (rule findPosition_first_candidate[OF _ _ _ _ candidate])
    show "max (itemFontSize wordB / 2) 20 = 20" by (simp add: wordB_def)
    show "20 < maxRadiusOf wordB overlapConfig"
      by (simp add: maxRadiusOf_def wordB_def overlapConfig_def defaultOptions_def)
    show "max 8 (nat \<lfloor>(20::real) / 8\<rfloor>) = 8" by (simp add: floor)
    show "(0::nat) < 8" by simp
  qed
  have second: "clampIntoCanvas overlapConfig
                  (wordB\<lparr>itemX := fst (2082 / 5, 1464 / 5), itemY := snd (2082 / 5, 1464 / 5)\<rparr>)
                  = placedB"
    by (simp add: clampIntoCanvas_def overlapConfig_def defaultOptions_def wordB_def placedB_def)
  show ?thesis
    unfolding smartLayoutWords_def Let_def sorted
    by (rule layoutFrom_two[OF first found second])
qed

lemma long_input_prepared:
  "prepareWordItems (\<lambda>k. 0) 4294967295 (analyzeWordFrequency (ascii ''abcdefghijklmnopqrstuvwxyzabcdef''))
     defaultOptions = Inr [longWord]"
proof -
  have "analyzeWordFrequency (ascii ''abcdefghijklmnopqrstuvwxyzabcdef'')
          = [(ascii ''abcdefghijklmnopqrstuvwxyzabcdef'', 1)]"
    by (simp add: analyzeWordFrequency_def ascii_def trim_def isWhiteSpace_def
          splitWhiteSpace_def countWord_def sortDescending_def)
  then show ?thesis
    by (simp add: prepareWordItems_def defaultOptions_def colorThemes_def
          calculateAngle_def generateAngles_default calculateFontSize_def
          selectColorInternal_def arrayGet_def defaultTheme_def estimateTextDimensions_def
          baseWidthOf_def isCJK_def ascii_def mathRound_def longWord_def)
qed

lemma tight_input_prepared:
  "prepareWordItems (\<lambda>k. 0) 4294967295 (analyzeWordFrequency (ascii ''abcd'')) narrowConfig
     = Inr [tightWord]"
proof -
  have "analyzeWordFrequency (ascii ''abcd'') = [(ascii ''abcd'', 1)]"
    by (simp add: analyzeWordFrequency_def ascii_def trim_def isWhiteSpace_def
          splitWhiteSpace_def countWord_def sortDescending_def)
  then show ?thesis
    by (simp add: prepareWordItems_def narrowConfig_def defaultOptions_def colorThemes_def
          calculateAngle_def generateAngles_default calculateFontSize_def
          selectColorInternal_def arrayGet_def defaultTheme_def estimateTextDimensions_def
          baseWidthOf_def isCJK_def ascii_def mathRound_def tightWord_def)
qed

section \<open>The spiral search and the layout loop\<close>

lemma spiralCandidate_acceptable:
  assumes "spiralCandidate word centerX centerY occupiedAreas config radius numAngles i = Some p"
  shows "acceptable config occupiedAreas (word\<lparr>itemX := fst p, itemY := snd p\<rparr>)"
  using assms
  by (auto simp: spiralCandidate_def acceptable_def withinMargin_def Let_def list_ex_iff
           split: if_splits)

lemma spiralAngles_candidate:
  "spiralAngles word centerX centerY occupiedAreas config radius numAngles i = Some p \<Longrightarrow>
   \<exists>j. spiralCandidate word centerX centerY occupiedAreas config radius numAngles j = Some p"
proof (induction word centerX centerY occupiedAreas config radius numAngles i
       rule: spiralAngles.induct)
  case (1 word centerX centerY occupiedAreas config radius numAngles i)
  from "1.prems" show ?case
    by (subst (asm) spiralAngles.simps) (auto split: if_splits option.splits dest: "1.IH")
qed

lemma spiralRadii_candidate:
  "spiralRadii word centerX centerY occupiedAreas config radius = Some p \<Longrightarrow>
   \<exists>r n j. spiralCandidate word centerX centerY occupiedAreas config r n j = Some p"
proof (induction word centerX centerY occupiedAreas config radius rule: spiralRadii.induct)
  case (1 word centerX centerY occupiedAreas config radius)
  let ?inner = "spiralAngles word centerX centerY occupiedAreas config radius
                  (max 8 (nat \<lfloor>radius / 8\<rfloor>)) 0"
  from "1.prems" have less: "radius < maxRadiusOf word config"
    by (subst (asm) spiralRadii.simps) (simp split: if_splits)
  show ?case
  proof (cases ?inner)
    case None
    with "1.prems" less
    have "spiralRadii word centerX centerY occupiedAreas config (radius + radiusStepOf word)
            = Some p"
      by (subst (asm) spiralRadii.simps) simp
    with "1.IH" less None show ?thesis by blast
  next
    case (Some q)
    with "1.prems" less have "q = p"
      by (subst (asm) spiralRadii.simps) simp
    with Some spiralAngles_candidate show ?thesis by blast
  qed
qed

lemma findPosition_acceptable:
  assumes "findPositionOrderedSpiral word centerX centerY occupiedAreas config = Some p"
  shows "acceptable config occupiedAreas (word\<lparr>itemX := fst p, itemY := snd p\<rparr>)"
  using assms spiralRadii_candidate spiralCandidate_acceptable
  unfolding findPositionOrderedSpiral_def Let_def by blast

lemma clamp_inert:
  assumes "withinMargin config word" "cfgWordGap config \<le> 10"
  shows "clampIntoCanvas config word = word"
  using assms by (simp add: clampIntoCanvas_def withinMargin_def min_def max_def)

lemma layoutFrom_invariant:
  assumes "0 < i" "cfgWordGap config \<le> 10"
    and "fst state = map (\<lambda>w. paddedArea w (recordedGap config w)) (snd state)"
    and "sorted_wrt (clearOf config) (snd state)"
  shows "\<exists>new. snd (layoutFrom config i wordItems state) = snd state @ new \<and>
           (\<forall>w \<in> set new. withinMargin config w) \<and>
           sorted_wrt (clearOf config) (snd state @ new)"
  using assms
proof (induction wordItems arbitrary: i state)
  case Nil
  then show ?case by simp
next
  case (Cons word rest)
  show ?case
  proof (cases "positionFor config i word (fst state)")
    case None
    with Cons.IH[of "i + 1" state] Cons.prems show ?thesis by simp
  next
    case (Some p)
    let ?moved = "word\<lparr>itemX := fst p, itemY := snd p\<rparr>"
    from Some Cons.prems(1)
    have found: "findPositionOrderedSpiral word (cfgWidth config / 2) (cfgHeight config / 2)
                   (fst state) config = Some p"
      by (simp add: positionFor_def)
    then have acc: "acceptable config (fst state) ?moved"
      by (rule findPosition_acceptable)
    then have margin: "withinMargin config ?moved"
      by (simp add: acceptable_def)
    from margin Cons.prems(2) have inert: "clampIntoCanvas config ?moved = ?moved"
      by (rule clamp_inert)
    let ?state' = "(fst state @ [paddedArea ?moved (recordedGap config ?moved)],
                    snd state @ [?moved])"
    have step: "layoutFrom config i (word # rest) state = layoutFrom config (i + 1) rest ?state'"
      using Some inert by (simp add: Let_def)
    have clear: "\<forall>earlier \<in> set (snd state). clearOf config earlier ?moved"
      using acc Cons.prems(3) by (auto simp: acceptable_def clearOf_def)
    have sorted': "sorted_wrt (clearOf config) (snd ?state')"
      using Cons.prems(4) clear by (simp add: sorted_wrt_append)
    have areas': "fst ?state' = map (\<lambda>w. paddedArea w (recordedGap config w)) (snd ?state')"
      using Cons.prems(3) by simp
    from Cons.IH[of "i + 1" ?state', OF _ Cons.prems(2) areas' sorted']
    obtain new where new: "snd (layoutFrom config (i + 1) rest ?state') = snd ?state' @ new"
        "\<forall>w \<in> set new. withinMargin config w"
        "sorted_wrt (clearOf config) (snd ?state' @ new)"
      by auto
    show ?thesis
      using new margin step by (intro exI[of _ "?moved # new"]) simp
  qed
qed

lemma layoutFrom_extends:
  "\<exists>new. snd (layoutFrom config i wordItems state) = snd state @ new"
proof (induction wordItems arbitrary: i state)
  case Nil
  then show ?case by simp
next
  case (Cons word rest)
  show ?case
  proof (cases "positionFor config i word (fst state)")
    case None
    with Cons.IH[of "i + 1" state] show ?thesis by simp
  next
    case (Some p)
    let ?placed = "clampIntoCanvas config (word\<lparr>itemX := fst p, itemY := snd p\<rparr>)"
    let ?state' = "(fst state @ [paddedArea ?placed (recordedGap config ?placed)],
                    snd state @ [?placed])"
    from Cons.IH[of "i + 1" ?state'] obtain new
      where "snd (layoutFrom config (i + 1) rest ?state') = snd ?state' @ new" by blast
    with Some show ?thesis by (simp add: Let_def)
  qed
qed








lemma smartLayoutWords_Nil:
  "sortDescending itemFontSize wordItems = [] \<Longrightarrow> smartLayoutWords wordItems config = []"
  by (simp add: smartLayoutWords_def)

lemma smartLayoutWords_first:
  assumes "sortDescending itemFontSize wordItems = first # rest"
  shows "\<exists>new. smartLayoutWords wordItems config
           = clampIntoCanvas config (centred config first) # new"
proof -
  let ?placed = "clampIntoCanvas config (centred config first)"
  let ?state = "([paddedArea ?placed (recordedGap config ?placed)], [?placed])"
  have "smartLayoutWords wordItems config = snd (layoutFrom config 1 rest ?state)"
    using assms by (simp add: smartLayoutWords_def positionFor_def centred_def Let_def)
  with layoutFrom_extends[of config 1 rest ?state] show ?thesis by auto
qed

lemma smartLayoutWords_rest:
  assumes "sortDescending itemFontSize wordItems = first # rest" "cfgWordGap config \<le> 10"
  shows "\<exists>new. smartLayoutWords wordItems config
           = clampIntoCanvas config (centred config first) # new \<and>
           (\<forall>w \<in> set new. withinMargin config w) \<and>
           sorted_wrt (clearOf config) (clampIntoCanvas config (centred config first) # new)"
proof -
  let ?placed = "clampIntoCanvas config (centred config first)"
  let ?state = "([paddedArea ?placed (recordedGap config ?placed)], [?placed])"
  have eq: "smartLayoutWords wordItems config = snd (layoutFrom config 1 rest ?state)"
    using assms by (simp add: smartLayoutWords_def positionFor_def centred_def Let_def)
  have "\<exists>new. snd (layoutFrom config 1 rest ?state) = snd ?state @ new \<and>
           (\<forall>w \<in> set new. withinMargin config w) \<and>
           sorted_wrt (clearOf config) (snd ?state @ new)"
    by (rule layoutFrom_invariant) (use assms in simp_all)
  with eq show ?thesis by auto
qed

lemma clearOf_boxes:
  assumes "clearOf config earlier later" "0 \<le> cfgWordGap config"
  shows "\<not> isOverlapping (paddedArea later 0) (paddedArea earlier 0)"
proof -
  have "0 \<le> searchGap config later" "0 \<le> recordedGap config earlier"
    using assms(2) by (simp_all add: searchGap_def recordedGap_def max_def)
  with assms(1) show ?thesis
    unfolding clearOf_def isOverlapping_def paddedArea_def by auto
qed

lemma sortDescending_hd_max:
  assumes "xs \<noteq> []"
  shows "sortDescending key xs \<noteq> [] \<and> hd (sortDescending key xs) \<in> set xs \<and>
         (\<forall>x \<in> set xs. key x \<le> key (hd (sortDescending key xs)))"
proof -
  let ?s = "sort_key (\<lambda>x. - key x) xs"
  have ne: "?s \<noteq> []" using assms by (metis length_0_conv length_sort)
  then obtain y ys where s: "?s = y # ys" by (cases ?s) auto
  have "sorted (map (\<lambda>x. - key x) ?s)" by (rule sorted_sort_key)
  with s have "\<forall>z \<in> set ys. - key y \<le> - key z" by simp
  moreover have "set ?s = set xs" by simp
  ultimately show ?thesis using s unfolding sortDescending_def by auto
qed

text \<open>
  Claim C1, as stated, fails: for the text \<^verbatim>\<open>a a b\<close> the search accepts the second word
  with the gap \<open>fontSize / 12\<close>, the layout then records it with the gap \<open>fontSize / 10\<close>,
  and the two recorded regions overlap.
\<close>

theorem recorded_regions_overlap:
  "smartLayoutWords [wordA, wordB] overlapConfig = [placedA, placedB] \<and>
   isOverlapping (paddedArea placedA (recordedGap overlapConfig placedA))
                 (paddedArea placedB (recordedGap overlapConfig placedB))"
  using overlap_layout
  by (simp add: isOverlapping_def paddedArea_def recordedGap_def overlapConfig_def
        defaultOptions_def wordA_def wordB_def placedA_def placedB_def)

text \<open>
  Claim C1, amended. When \<open>wordGap\<close> is at most the search margin 10, every placed word is
  clear of every word placed before it: its box padded with the search gap
  \<open>max wordGap (fontSize / 12)\<close> does not meet the earlier word's recorded region (padded
  with \<open>max wordGap (fontSize / 10)\<close>). When moreover \<open>0 \<le> wordGap\<close>, the unpadded boxes of
  the placed words do not meet pairwise.
\<close>

theorem smartLayoutWords_clear:
  assumes "cfgWordGap config \<le> 10"
  shows "sorted_wrt (clearOf config) (smartLayoutWords wordItems config) \<and>
         (0 \<le> cfgWordGap config \<longrightarrow>
            sorted_wrt (\<lambda>earlier later. \<not> isOverlapping (paddedArea later 0) (paddedArea earlier 0))
              (smartLayoutWords wordItems config))"
proof -
  have clear: "sorted_wrt (clearOf config) (smartLayoutWords wordItems config)"
  proof (cases "sortDescending itemFontSize wordItems")
    case Nil
    then show ?thesis by (simp add: smartLayoutWords_Nil)
  next
    case (Cons first rest)
    from smartLayoutWords_rest[OF Cons assms] show ?thesis by auto
  qed
  moreover have "sorted_wrt (\<lambda>earlier later. \<not> isOverlapping (paddedArea later 0) (paddedArea earlier 0))
              (smartLayoutWords wordItems config)" if "0 \<le> cfgWordGap config"
  proof (rule sorted_wrt_mono_rel[OF _ clear])
    fix earlier later
    assume "clearOf config earlier later"
    then show "\<not> isOverlapping (paddedArea later 0) (paddedArea earlier 0)"
      using that by (rule clearOf_boxes)
  qed
  ultimately show ?thesis by blast
qed

theorem smartLayoutWords_clear_witness:
  "cfgWordGap overlapConfig \<le> 10 \<and>
   sorted_wrt (clearOf overlapConfig) (smartLayoutWords [wordA, wordB] overlapConfig) \<and>
   0 \<le> cfgWordGap overlapConfig \<and>
   sorted_wrt (\<lambda>earlier later. \<not> isOverlapping (paddedArea later 0) (paddedArea earlier 0))
     (smartLayoutWords [wordA, wordB] overlapConfig)"
proof -
  have h: "cfgWordGap overlapConfig \<le> 10" and h': "0 \<le> cfgWordGap overlapConfig"
    by (simp_all add: overlapConfig_def defaultOptions_def)
  from smartLayoutWords_clear[OF h, of "[wordA, wordB]"] h h' show ?thesis by simp
qed










text \<open>
  Claim C4, as stated, fails: the word \<^verbatim>\<open>abcd\<close> (width 98.4) fits a canvas of width 100,
  yet it is placed at \<open>x = 3\<close>, not at the centred \<open>x = 0.8\<close>, because the clamp to
  \<open>wordGap\<close> runs after the centring.
\<close>

theorem first_item_not_centred:
  "smartLayoutWords [tightWord] narrowConfig = [placedTight] \<and>
   itemWidth tightWord \<le> cfgWidth narrowConfig \<and>
   itemHeight tightWord \<le> cfgHeight narrowConfig \<and>
   itemX placedTight \<noteq> cfgWidth narrowConfig / 2 - itemWidth tightWord / 2"
proof -
  have sorted: "sortDescending itemFontSize [tightWord] = [tightWord]"
    by (simp add: sortDescending_def)
  have first: "clampIntoCanvas narrowConfig
                 (tightWord\<lparr>itemX := cfgWidth narrowConfig / 2 - itemWidth tightWord / 2,
                        itemY := cfgHeight narrowConfig / 2 - itemHeight tightWord / 2\<rparr>)
               = placedTight"
    by (simp add: clampIntoCanvas_def narrowConfig_def defaultOptions_def tightWord_def
          placedTight_def)
  have "smartLayoutWords [tightWord] narrowConfig = [placedTight]"
    unfolding smartLayoutWords_def Let_def sorted by (rule layoutFrom_one[OF first])
  then show ?thesis
    by (simp add: narrowConfig_def defaultOptions_def tightWord_def placedTight_def)
qed

text \<open>
  Claim C4, amended. For a non-empty word list, the first processed word is one of largest
  font size, it is always placed whatever the other words are, at the centre
  \<open>(canvasWidth / 2 - w / 2, canvasHeight / 2 - h / 2)\<close> clamped into the canvas; and this
  is exactly the centre if and only if the word with \<open>wordGap\<close> on either side fits the
  canvas: \<open>w + 2 * wordGap \<le> canvasWidth\<close> and \<open>h + 2 * wordGap \<le> canvasHeight\<close>.
\<close>

theorem first_item_centred:
  assumes "wordItems \<noteq> []"
    and "first = hd (sortDescending itemFontSize wordItems)"
  shows "smartLayoutWords wordItems config \<noteq> [] \<and>
         first \<in> set wordItems \<and> (\<forall>w \<in> set wordItems. itemFontSize w \<le> itemFontSize first) \<and>
         hd (smartLayoutWords wordItems config) = clampIntoCanvas config (centred config first) \<and>
         (hd (smartLayoutWords wordItems config) = centred config first \<longleftrightarrow>
            itemWidth first + 2 * cfgWordGap config \<le> cfgWidth config \<and>
            itemHeight first + 2 * cfgWordGap config \<le> cfgHeight config)"
proof -
  from sortDescending_hd_max[OF assms(1), of itemFontSize] assms(2)
  have ne: "sortDescending itemFontSize wordItems \<noteq> []" and mem: "first \<in> set wordItems"
    and mx: "\<forall>w \<in> set wordItems. itemFontSize w \<le> itemFontSize first" by auto
  from ne assms(2) obtain rest where "sortDescending itemFontSize wordItems = first # rest"
    by (cases "sortDescending itemFontSize wordItems") auto
  from smartLayoutWords_first[OF this] obtain new where
    out: "smartLayoutWords wordItems config = clampIntoCanvas config (centred config first) # new"
    by blast
  have x: "itemX (clampIntoCanvas config (centred config first)) = itemX (centred config first)
             \<longleftrightarrow> itemWidth first + 2 * cfgWordGap config \<le> cfgWidth config"
    by (auto simp: clampIntoCanvas_def centred_def min_def max_def field_simps)
  have y: "itemY (clampIntoCanvas config (centred config first)) = itemY (centred config first)
             \<longleftrightarrow> itemHeight first + 2 * cfgWordGap config \<le> cfgHeight config"
    by (auto simp: clampIntoCanvas_def centred_def min_def max_def field_simps)
  have "clampIntoCanvas config (centred config first) = centred config first
          \<longleftrightarrow> itemX (clampIntoCanvas config (centred config first)) = itemX (centred config first)
            \<and> itemY (clampIntoCanvas config (centred config first)) = itemY (centred config first)"
    unfolding clampIntoCanvas_def by (cases "centred config first") auto
  with x y out mem mx show ?thesis by simp
qed

theorem first_item_centred_witness:
  "[wordA, wordB] \<noteq> [] \<and>
   itemWidth wordA + 2 * cfgWordGap overlapConfig \<le> cfgWidth overlapConfig \<and>
   itemHeight wordA + 2 * cfgWordGap overlapConfig \<le> cfgHeight overlapConfig \<and>
   hd (smartLayoutWords [wordA, wordB] overlapConfig) = centred overlapConfig wordA"
proof -
  have sorted: "wordA = hd (sortDescending itemFontSize [wordA, wordB])"
    by (simp add: sortDescending_def wordA_def wordB_def)
  have w: "itemWidth wordA + 2 * cfgWordGap overlapConfig \<le> cfgWidth overlapConfig"
    and h: "itemHeight wordA + 2 * cfgWordGap overlapConfig \<le> cfgHeight overlapConfig"
    by (simp_all add: wordA_def overlapConfig_def defaultOptions_def)
  from first_item_centred[OF _ sorted, of overlapConfig]
  have "hd (smartLayoutWords [wordA, wordB] overlapConfig) = centred overlapConfig wordA
          \<longleftrightarrow> itemWidth wordA + 2 * cfgWordGap overlapConfig \<le> cfgWidth overlapConfig \<and>
              itemHeight wordA + 2 * cfgWordGap overlapConfig \<le> cfgHeight overlapConfig"
    by blast
  with w h show ?thesis by simp
qed

section \<open>Frequency analysis: counting, ranking, truncation\<close>

lemma firstIndex_less: "x \<in> set xs \<Longrightarrow> firstIndex xs x < length xs"
  unfolding firstIndex_def by (induction xs) auto

lemma firstIndex_append_old: "x \<in> set xs \<Longrightarrow> firstIndex (xs @ ys) x = firstIndex xs x"
  unfolding firstIndex_def by (simp add: takeWhile_append1)

lemma firstIndex_append_new: "x \<notin> set xs \<Longrightarrow> firstIndex (xs @ [x]) x = length xs"
proof -
  assume "x \<notin> set xs"
  then have "takeWhile (\<lambda>y. y \<noteq> x) (xs @ [x]) = xs @ takeWhile (\<lambda>y. y \<noteq> x) [x]"
    by (intro takeWhile_append2) auto
  then show ?thesis by (simp add: firstIndex_def)
qed

lemma mapSet_keys_present: "k \<in> fst ` set m \<Longrightarrow> map fst (mapSet m k v) = map fst m"
  by (induction m) force+

lemma mapSet_keys_absent: "k \<notin> fst ` set m \<Longrightarrow> map fst (mapSet m k v) = map fst m @ [k]"
  by (induction m) auto

lemma mapGet_mapSet: "mapGet (mapSet m k v) k' = (if k' = k then Some v else mapGet m k')"
  by (induction m) auto

lemma mapGet_None: "k \<notin> fst ` set m \<Longrightarrow> mapGet m k = None"
  by (induction m) auto

lemma mapGet_member: "distinct (map fst m) \<Longrightarrow> (k, v) \<in> set m \<Longrightarrow> mapGet m k = Some v"
  by (induction m) (auto simp: image_iff)

lemma tally_invariant:
  "distinct (map fst (foldl bumpWord [] ws)) \<and>
   fst ` set (foldl bumpWord [] ws) = set ws \<and>
   (\<forall>w \<in> set ws. mapGet (foldl bumpWord [] ws) w = Some (count_list ws w)) \<and>
   sorted_wrt (\<lambda>u v. firstIndex ws u < firstIndex ws v) (map fst (foldl bumpWord [] ws))"
proof (induction ws rule: rev_induct)
  case Nil
  then show ?case by simp
next
  case (snoc w ws)
  let ?m = "foldl bumpWord [] ws"
  from snoc have dist: "distinct (map fst ?m)" and keys: "fst ` set ?m = set ws"
    and counts: "\<forall>u \<in> set ws. mapGet ?m u = Some (count_list ws u)"
    and order: "sorted_wrt (\<lambda>u v. firstIndex ws u < firstIndex ws v) (map fst ?m)"
    by simp_all
  have keys': "set (map fst ?m) = set ws" using keys by simp
  have fold: "foldl bumpWord [] (ws @ [w]) = bumpWord ?m w" by simp
  have old_order:
    "sorted_wrt (\<lambda>u v. firstIndex (ws @ [w]) u < firstIndex (ws @ [w]) v) (map fst ?m)"
  proof (rule sorted_wrt_mono_rel[OF _ order])
    fix u v
    assume "u \<in> set (map fst ?m)" "v \<in> set (map fst ?m)" "firstIndex ws u < firstIndex ws v"
    then show "firstIndex (ws @ [w]) u < firstIndex (ws @ [w]) v"
      unfolding keys' by (simp add: firstIndex_append_old)
  qed
  show ?case
  proof (cases "w \<in> set ws")
    case True
    then have k: "map fst (bumpWord ?m w) = map fst ?m"
      by (simp add: bumpWord_def mapSet_keys_present keys)
    then have ks: "fst ` set (bumpWord ?m w) = set (ws @ [w])"
      using keys' True by (metis insert_absorb list.set(2) list.set_map rotate1.simps(2) set_rotate1)
    have "\<forall>u \<in> set (ws @ [w]). mapGet (bumpWord ?m w) u = Some (count_list (ws @ [w]) u)"
      using True counts by (auto simp: bumpWord_def mapGet_mapSet)
    then show ?thesis
      unfolding fold using k ks dist old_order by simp
  next
    case False
    then have k: "map fst (bumpWord ?m w) = map fst ?m @ [w]"
      by (simp add: bumpWord_def mapSet_keys_absent keys)
    have none: "mapGet ?m w = None"
      using False keys by (simp add: mapGet_None)
    have "\<forall>u \<in> set (ws @ [w]). mapGet (bumpWord ?m w) u = Some (count_list (ws @ [w]) u)"
      using False counts none by (auto simp: bumpWord_def mapGet_mapSet)
    moreover have "fst ` set (bumpWord ?m w) = set (ws @ [w])"
    proof -
      have "set (map fst (bumpWord ?m w)) = set (ws @ [w])" unfolding k using keys' by simp
      then show ?thesis by simp
    qed
    moreover have "distinct (map fst (bumpWord ?m w))"
      unfolding k using dist keys' False by simp
    moreover have "sorted_wrt (\<lambda>u v. firstIndex (ws @ [w]) u < firstIndex (ws @ [w]) v)
                     (map fst (bumpWord ?m w))"
      unfolding k using old_order keys' False
      by (simp add: sorted_wrt_append firstIndex_append_old firstIndex_append_new firstIndex_less)
    ultimately show ?thesis
      unfolding fold by blast
  qed
qed

lemma insort_stable:
  assumes "sorted_wrt (\<lambda>p q. key p \<le> key q \<and> (key p = key q \<longrightarrow> before p q)) ys"
    and "\<forall>y \<in> set ys. before x y"
  shows "sorted_wrt (\<lambda>p q. key p \<le> key q \<and> (key p = key q \<longrightarrow> before p q))
           (insort_key key x ys)"
  using assms
proof (induction ys)
  case Nil
  then show ?case by simp
next
  case (Cons y ys)
  show ?case
  proof (cases "key x \<le> key y")
    case True
    with Cons.prems show ?thesis by (auto intro: order_trans)
  next
    case False
    with Cons show ?thesis by (auto simp: set_insort_key)
  qed
qed

lemma sort_key_stable_wrt:
  fixes key :: "'a \<Rightarrow> 'k::linorder"
  assumes "sorted_wrt before xs"
  shows "sorted_wrt (\<lambda>p q. key p \<le> key q \<and> (key p = key q \<longrightarrow> before p q)) (sort_key key xs)"
  using assms
proof (induction xs)
  case Nil
  then show ?case by simp
next
  case (Cons x xs)
  then have "sorted_wrt (\<lambda>p q. key p \<le> key q \<and> (key p = key q \<longrightarrow> before p q))
               (sort_key key xs)"
    and "\<forall>y \<in> set (sort_key key xs). before x y"
    by auto
  then show ?case by (simp add: insort_stable)
qed

lemma splitFrom_clean:
  "\<forall>c \<in> set cur. \<not> isWhiteSpace c \<Longrightarrow> w \<in> set (splitFrom cur cs) \<Longrightarrow>
   \<forall>c \<in> set w. \<not> isWhiteSpace c"
proof (induction cur cs rule: splitFrom.induct)
  case (1 cur)
  then show ?case by simp
next
  case (2 cur c cs)
  show ?case
  proof (cases "isWhiteSpace c")
    case True
    with "2.prems"(2)
    have "w = cur \<or> w \<in> set (splitFrom [] (dropWhile isWhiteSpace cs))" by simp
    then show ?thesis
    proof
      assume "w = cur"
      with "2.prems"(1) show ?thesis by simp
    next
      assume "w \<in> set (splitFrom [] (dropWhile isWhiteSpace cs))"
      with "2.IH"(1)[OF True] show ?thesis by simp
    qed
  next
    case False
    with "2.prems"(2) have "w \<in> set (splitFrom (cur @ [c]) cs)" by simp
    moreover have "\<forall>d \<in> set (cur @ [c]). \<not> isWhiteSpace d"
      using False "2.prems"(1) by simp
    ultimately show ?thesis using "2.IH"(2)[OF False] by blast
  qed
qed

lemma trim_clean: "\<forall>c \<in> set w. \<not> isWhiteSpace c \<Longrightarrow> trim w = w"
proof -
  assume clean: "\<forall>c \<in> set w. \<not> isWhiteSpace c"
  have drop: "dropWhile isWhiteSpace v = v" if "\<forall>c \<in> set v. \<not> isWhiteSpace c" for v
    using that by (cases v) auto
  from clean have "dropWhile isWhiteSpace (rev w) = rev w" by (intro drop) simp
  with clean drop[of w] show ?thesis by (simp add: trim_def)
qed

lemma trim_Nil: "trim s = [] \<Longrightarrow> \<forall>c \<in> set s. isWhiteSpace c"
proof -
  assume "trim s = []"
  then have "\<forall>c \<in> set (dropWhile isWhiteSpace s). isWhiteSpace c"
    by (simp add: trim_def dropWhile_eq_Nil_conv)
  then have "dropWhile isWhiteSpace s = []"
    using hd_dropWhile[of isWhiteSpace s] by (cases "dropWhile isWhiteSpace s") auto
  then show ?thesis by (simp add: dropWhile_eq_Nil_conv)
qed

lemma wordsOf_clean: "w \<in> set (wordsOf txt) \<Longrightarrow> w \<noteq> [] \<and> (\<forall>c \<in> set w. \<not> isWhiteSpace c)"
  using splitFrom_clean[of "[]" w "txt"] by (auto simp: wordsOf_def splitWhiteSpace_def)

lemma wordsOf_blank: "\<forall>c \<in> set txt. isWhiteSpace c \<Longrightarrow> wordsOf txt = []"
proof (cases "txt")
  case Nil
  then show ?thesis by (simp add: wordsOf_def splitWhiteSpace_def)
next
  case (Cons c cs)
  assume "\<forall>c \<in> set txt. isWhiteSpace c"
  with Cons have "isWhiteSpace c" "dropWhile isWhiteSpace cs = []" by auto
  then have "splitFrom [] (c # cs) = [[], []]" by (simp del: dropWhile_eq_Nil_conv)
  with Cons show ?thesis by (simp add: wordsOf_def splitWhiteSpace_def)
qed

lemma countWord_clean:
  assumes "w \<noteq> []" "\<forall>c \<in> set w. \<not> isWhiteSpace c"
  shows "countWord m w = bumpWord m w"
  using assms by (simp add: countWord_def bumpWord_def trim_clean)

lemma foldl_countWord_clean:
  "\<forall>w \<in> set ws. w \<noteq> [] \<and> (\<forall>c \<in> set w. \<not> isWhiteSpace c) \<Longrightarrow>
   foldl countWord m ws = foldl bumpWord m ws"
  by (induction ws arbitrary: m) (simp_all add: countWord_clean)

lemma analyzeWordFrequency_eq:
  "analyzeWordFrequency txt =
     take 120 (sort_key (\<lambda>p. - real (snd p)) (foldl bumpWord [] (wordsOf txt)))"
proof (cases "txt = [] \<or> length (trim txt) = 0")
  case True
  then have "\<forall>c \<in> set txt. isWhiteSpace c" using trim_Nil by auto
  then have "wordsOf txt = []" by (rule wordsOf_blank)
  with True show ?thesis by (simp add: analyzeWordFrequency_def)
next
  case False
  have "foldl countWord [] (wordsOf txt) = foldl bumpWord [] (wordsOf txt)"
    by (rule foldl_countWord_clean) (use wordsOf_clean in blast)
  with False show ?thesis
    by (simp add: analyzeWordFrequency_def sortDescending_def wordsOf_def case_prod_unfold)
qed

lemma tally_distinct: "distinct (map fst (foldl bumpWord [] ws))"
  using tally_invariant[of ws] by blast

lemma tally_keys: "fst ` set (foldl bumpWord [] ws) = set ws"
  using tally_invariant[of ws] by blast

lemma tally_counts: "w \<in> set ws \<Longrightarrow> mapGet (foldl bumpWord [] ws) w = Some (count_list ws w)"
  using tally_invariant[of ws] by blast

lemma tally_order:
  "sorted_wrt (\<lambda>p q. firstIndex ws (fst p) < firstIndex ws (fst q)) (foldl bumpWord [] ws)"
  using tally_invariant[of ws] by (simp add: sorted_wrt_map)

lemma analyze_length:
  "length (analyzeWordFrequency txt) = min 120 (card (set (wordsOf txt)))"
proof -
  let ?m = "foldl bumpWord [] (wordsOf txt)"
  have "length ?m = length (map fst ?m)" by simp
  also have "\<dots> = card (set (map fst ?m))"
    using tally_distinct by (rule distinct_card[symmetric])
  also have "set (map fst ?m) = set (wordsOf txt)" using tally_keys by simp
  finally show ?thesis by (simp add: analyzeWordFrequency_eq)
qed

lemma analyze_distinct: "distinct (map fst (analyzeWordFrequency txt))"
proof -
  let ?m = "foldl bumpWord [] (wordsOf txt)"
  let ?s = "sort_key (\<lambda>p. - real (snd p)) ?m"
  have "distinct ?m \<and> inj_on fst (set ?m)"
    using tally_distinct[of "wordsOf txt"] by (simp add: distinct_map)
  then have "distinct ?s \<and> inj_on fst (set ?s)" by simp
  then have "distinct (map fst ?s)" by (simp add: distinct_map)
  then have "distinct (take 120 (map fst ?s))" by (rule distinct_take)
  then show ?thesis by (simp add: analyzeWordFrequency_eq take_map)
qed

lemma analyze_counts:
  assumes "(w, f) \<in> set (analyzeWordFrequency txt)"
  shows "1 \<le> f \<and> f = count_list (wordsOf txt) w"
proof -
  let ?m = "foldl bumpWord [] (wordsOf txt)"
  from assms have "(w, f) \<in> set (sort_key (\<lambda>p. - real (snd p)) ?m)"
    unfolding analyzeWordFrequency_eq by (rule in_set_takeD)
  then have mem: "(w, f) \<in> set ?m" by simp
  then have "fst (w, f) \<in> fst ` set ?m" by (rule imageI)
  then have w: "w \<in> set (wordsOf txt)" by (simp add: tally_keys)
  from mem have "mapGet ?m w = Some f" by (simp add: mapGet_member tally_distinct)
  with w have "f = count_list (wordsOf txt) w" by (simp add: tally_counts)
  moreover from w have "count_list (wordsOf txt) w \<noteq> 0" by (simp add: count_list_0_iff)
  ultimately show ?thesis by simp
qed

lemma analyze_ranked: "sorted_wrt (rankedBefore (wordsOf txt)) (analyzeWordFrequency txt)"
proof -
  let ?toks = "wordsOf txt"
  let ?m = "foldl bumpWord [] ?toks"
  let ?key = "\<lambda>p :: jsstring \<times> nat. - real (snd p)"
  have "sorted_wrt (\<lambda>p q. ?key p \<le> ?key q \<and>
          (?key p = ?key q \<longrightarrow> firstIndex ?toks (fst p) < firstIndex ?toks (fst q)))
          (sort_key ?key ?m)"
    using tally_order by (rule sort_key_stable_wrt)
  then have "sorted_wrt (rankedBefore ?toks) (sort_key ?key ?m)"
    by (rule sorted_wrt_mono_rel[rotated]) (simp add: rankedBefore_def)
  then show ?thesis
    unfolding analyzeWordFrequency_eq by (rule sorted_wrt_take)
qed

lemma analyze_example:
  "analyzeWordFrequency (ascii ''a b a c b a'')
     = [(ascii ''a'', 3), (ascii ''b'', 2), (ascii ''c'', 1)]"
  by (simp add: analyzeWordFrequency_def ascii_def trim_def isWhiteSpace_def
        splitWhiteSpace_def countWord_def sortDescending_def)

text \<open>
  Claim C5. For every text, with \<open>wordsOf\<close> its token sequence: the analyzer returns one
  entry per distinct token, at most 120 of them; every entry carries the number of
  occurrences of its word, which is at least 1; the entries are ordered by non-increasing
  count, entries of equal count in the order of their first occurrence; and the tokens
  \<^verbatim>\<open>a b a c b a\<close> give \<^verbatim>\<open>[{a,3},{b,2},{c,1}]\<close>. The analyzer is a function of the text, so
  equal inputs give equal results.
\<close>

theorem analyzeWordFrequency_ranked:
  "length (analyzeWordFrequency txt) = min 120 (card (set (wordsOf txt))) \<and>
   distinct (map fst (analyzeWordFrequency txt)) \<and>
   (\<forall>(w, f) \<in> set (analyzeWordFrequency txt). 1 \<le> f \<and> f = count_list (wordsOf txt) w) \<and>
   sorted_wrt (rankedBefore (wordsOf txt)) (analyzeWordFrequency txt) \<and>
   analyzeWordFrequency (ascii ''a b a c b a'')
     = [(ascii ''a'', 3), (ascii ''b'', 2), (ascii ''c'', 1)]"
proof (intro conjI)
  show "\<forall>(w, f) \<in> set (analyzeWordFrequency txt). 1 \<le> f \<and> f = count_list (wordsOf txt) w"
    using analyze_counts by blast
qed (rule analyze_length analyze_distinct analyze_ranked analyze_example)+

theorem analyzeWordFrequency_ranked_witness:
  "wordsOf (ascii ''b a b a c'')
     = [ascii ''b'', ascii ''a'', ascii ''b'', ascii ''a'', ascii ''c''] \<and>
   analyzeWordFrequency (ascii ''b a b a c'')
     = [(ascii ''b'', 2), (ascii ''a'', 2), (ascii ''c'', 1)] \<and>
   length (analyzeWordFrequency (ascii ''b a b a c''))
     = min 120 (card (set (wordsOf (ascii ''b a b a c'')))) \<and>
   distinct (map fst (analyzeWordFrequency (ascii ''b a b a c''))) \<and>
   sorted_wrt (rankedBefore (wordsOf (ascii ''b a b a c'')))
     (analyzeWordFrequency (ascii ''b a b a c''))"
proof -
  have "wordsOf (ascii ''b a b a c'')
          = [ascii ''b'', ascii ''a'', ascii ''b'', ascii ''a'', ascii ''c'']"
    by (simp add: wordsOf_def splitWhiteSpace_def ascii_def isWhiteSpace_def)
  moreover have "analyzeWordFrequency (ascii ''b a b a c'')
          = [(ascii ''b'', 2), (ascii ''a'', 2), (ascii ''c'', 1)]"
    by (simp add: analyzeWordFrequency_def ascii_def trim_def isWhiteSpace_def
          splitWhiteSpace_def countWord_def sortDescending_def)
  ultimately show ?thesis
    using analyzeWordFrequency_ranked[of "ascii ''b a b a c''"] by (intro conjI) blast+
qed

section \<open>The angle grid and the pipeline\<close>

lemma generateAnglesFrom_error:
  "generateAnglesFrom arrayLimit a mx step acc = Inl e \<Longrightarrow> e = InvalidArrayLength"
proof (induction arrayLimit a mx step acc rule: generateAnglesFrom.induct)
  case (1 arrayLimit a mx step acc)
  from "1.prems" show ?case
    by (subst (asm) generateAnglesFrom.simps) (auto split: if_splits dest: "1.IH")
qed

lemma generateAngles_error:
  "generateAngles arrayLimit angleRange step = Inl e \<Longrightarrow> e = InvalidArrayLength"
  by (auto simp: generateAngles_def split: sum.splits dest: generateAnglesFrom_error)

lemma generateAngles_nonempty:
  "generateAngles arrayLimit angleRange step = Inr angles \<Longrightarrow> angles \<noteq> []"
  by (auto simp: generateAngles_def split: sum.splits if_splits)

lemma generateAngles_outcome:
  "(\<exists>angles. generateAngles arrayLimit angleRange step = Inr angles \<and> angles \<noteq> []) \<or>
   generateAngles arrayLimit angleRange step = Inl InvalidArrayLength"
proof (cases "generateAngles arrayLimit angleRange step")
  case (Inl e)
  with generateAngles_error[OF Inl] show ?thesis by simp
next
  case (Inr angles)
  with generateAngles_nonempty[OF Inr] show ?thesis by simp
qed

text \<open>
  A run whose angle stays at or below the maximum fills the array: \<open>stays\<close> is a property
  of the angle that the increment keeps and that implies \<open>angle \<le> max\<close>.
\<close>

lemma generateAnglesFrom_full:
  assumes step: "\<And>v. stays v \<Longrightarrow> v \<le> mx \<and> stays (roundDouble (v + step))"
    and "stays a"
  shows "generateAnglesFrom arrayLimit a mx step acc = Inl InvalidArrayLength"
  using assms(2)
proof (induction "arrayLimit - length acc" arbitrary: a acc)
  case 0
  with step[of a] show ?case by (subst generateAnglesFrom.simps) simp
next
  case (Suc n)
  from step[OF Suc.prems] have le: "a \<le> mx" and moved: "stays (roundDouble (a + step))"
    by simp_all
  from Suc.hyps(2) have less: "length acc < arrayLimit" and "n = arrayLimit - length (acc @ [a])"
    by simp_all
  from Suc.hyps(1)[OF this(2) moved]
  have "generateAnglesFrom arrayLimit (roundDouble (a + step)) mx step (acc @ [a])
          = Inl InvalidArrayLength" .
  with le less show ?case by (subst generateAnglesFrom.simps) simp
qed

lemma generateAngles_step_nonpositive:
  assumes "step \<le> 0" and "rangeMin angleRange \<le> rangeMax angleRange"
    and "roundDouble (rangeMax angleRange) = rangeMax angleRange"
  shows "generateAngles arrayLimit angleRange step = Inl InvalidArrayLength"
proof -
  have "generateAnglesFrom arrayLimit (rangeMin angleRange) (rangeMax angleRange) step []
          = Inl InvalidArrayLength"
  proof (rule generateAnglesFrom_full[where stays = "\<lambda>v. v \<le> rangeMax angleRange"])
    fix v assume "v \<le> rangeMax angleRange"
    with assms(1) have "v + step \<le> rangeMax angleRange" by simp
    from roundDouble_le[OF this assms(3)] \<open>v \<le> rangeMax angleRange\<close>
    show "v \<le> rangeMax angleRange \<and> roundDouble (v + step) \<le> rangeMax angleRange" by simp
  qed (rule assms(2))
  then show ?thesis by (simp add: generateAngles_def)
qed

lemma generateAngles_step_absorbed:
  assumes "roundDouble (rangeMin angleRange + step) = rangeMin angleRange"
    and "rangeMin angleRange \<le> rangeMax angleRange"
  shows "generateAngles arrayLimit angleRange step = Inl InvalidArrayLength"
proof -
  have "generateAnglesFrom arrayLimit (rangeMin angleRange) (rangeMax angleRange) step []
          = Inl InvalidArrayLength"
    by (rule generateAnglesFrom_full[where stays = "\<lambda>v. v = rangeMin angleRange"])
       (use assms in simp_all)
  then show ?thesis by (simp add: generateAngles_def)
qed

text \<open>
  A step that the rounding cannot halve moves the angle on, and the grid is returned when
  the array can hold it.
\<close>

lemma generateAnglesFrom_progress:
  assumes "0 < step"
    and progress: "\<And>v. lo \<le> v \<Longrightarrow> v \<le> mx \<Longrightarrow> v + step / 2 \<le> roundDouble (v + step)"
    and "lo \<le> a" and "mx - a < real n * (step / 2)" and "length acc + n \<le> arrayLimit"
  shows "\<exists>ys. generateAnglesFrom arrayLimit a mx step acc = Inr ys"
  using assms(3,4,5)
proof (induction n arbitrary: a acc)
  case 0
  then have "\<not> a \<le> mx" by simp
  then show ?case by (subst generateAnglesFrom.simps) simp
next
  case (Suc n)
  show ?case
  proof (cases "a \<le> mx")
    case True
    from progress[OF Suc.prems(1) True]
    have moved: "a + step / 2 \<le> roundDouble (a + step)" .
    have "lo \<le> roundDouble (a + step)" using moved Suc.prems(1) assms(1) by simp
    moreover have "mx - roundDouble (a + step) < real n * (step / 2)"
      using moved Suc.prems(2) by (simp add: algebra_simps)
    moreover have "length (acc @ [a]) + n \<le> arrayLimit" using Suc.prems(3) by simp
    ultimately obtain ys
      where "generateAnglesFrom arrayLimit (roundDouble (a + step)) mx step (acc @ [a]) = Inr ys"
      using Suc.IH by blast
    moreover have "length acc < arrayLimit" using Suc.prems(3) by simp
    ultimately show ?thesis
      using True by (subst generateAnglesFrom.simps) simp
  next
    case False
    then show ?thesis by (subst generateAnglesFrom.simps) simp
  qed
qed

lemma generateAngles_positive:
  assumes "0 < step" and "roundDouble step = step"
    and "\<bar>rangeMin angleRange\<bar> \<le> 2 ^ 52 * step"
    and "\<bar>rangeMax angleRange\<bar> + step \<le> 2 ^ 52 * step"
    and "2 * (rangeMax angleRange - rangeMin angleRange) < real arrayLimit * step"
  shows "\<exists>angles. generateAngles arrayLimit angleRange step = Inr angles \<and> angles \<noteq> []"
proof -
  have least: "2 powr - 1074 \<le> step" by (rule positive_double_least[OF assms(1,2)])
  have "\<exists>ys. generateAnglesFrom arrayLimit (rangeMin angleRange) (rangeMax angleRange) step []
          = Inr ys"
  proof (rule generateAnglesFrom_progress[where lo = "rangeMin angleRange" and n = arrayLimit])
    fix v assume v: "rangeMin angleRange \<le> v" "v \<le> rangeMax angleRange"
    have "\<bar>v + step\<bar> \<le> 2 ^ 52 * step"
      using v assms(1,3,4) by (simp add: abs_if split: if_splits)
    then have "\<bar>v + step\<bar> / 2 ^ 53 \<le> step / 2" by simp
    moreover have "(2::real) powr - 1075 = 2 powr (- 1074 - 1)" by simp
    then have "(2::real) powr - 1075 = 2 powr - 1074 / 2" by (simp only: powr_diff) simp
    then have "(2::real) powr - 1075 \<le> step / 2" using least by simp
    ultimately have "max (\<bar>v + step\<bar> / 2 ^ 53) (2 powr - 1075) \<le> step / 2"
      by (rule max.boundedI)
    with roundDouble_error[of "v + step"]
    have "\<bar>roundDouble (v + step) - (v + step)\<bar> \<le> step / 2" by (rule order_trans)
    then show "v + step / 2 \<le> roundDouble (v + step)" by (simp add: abs_if split: if_splits)
  qed (use assms in \<open>simp_all add: algebra_simps\<close>)
  then show ?thesis by (auto simp: generateAngles_def)
qed

lemma generateAngles_fallback:
  assumes "rangeMax angleRange < rangeMin angleRange"
  shows "generateAngles arrayLimit angleRange step = Inr [0]"
  using assms by (simp add: generateAngles_def generateAnglesFrom.simps)

lemma calculateAngle_number:
  assumes "generateAngles arrayLimit angleRange step = Inr angles"
    and "0 \<le> rnd" and "rnd < 1"
  shows "\<exists>angle. calculateAngle arrayLimit rnd index angleRange step = Inr (Some angle)"
proof -
  from generateAngles_nonempty[OF assms(1)] have ne: "angles \<noteq> []" .
  have "0 \<le> \<lfloor>rnd * real (length angles)\<rfloor>" using assms(2) by simp
  moreover have "\<lfloor>rnd * real (length angles)\<rfloor> < int (length angles)"
  proof -
    have "rnd * real (length angles) < real (length angles)"
      using assms(3) ne by simp
    then show ?thesis by (simp add: floor_less_iff)
  qed
  ultimately obtain angle where "arrayGet angles \<lfloor>rnd * real (length angles)\<rfloor> = Some angle"
    by (simp add: arrayGet_def)
  with assms(1) show ?thesis
    by (auto simp: calculateAngle_def Let_def split: option.splits)
qed

lemma prepareFrom_fails:
  assumes "generateAngles arrayLimit (cfgAngleRange config) (cfgAngleStep config) = Inl e"
    and "wordFrequencies \<noteq> []"
  shows "prepareFrom random arrayLimit config minFreq maxFreq colors index calls wordFrequencies
           = Inl e"
proof -
  from assms(2) obtain word frequency rest where "wordFrequencies = (word, frequency) # rest"
    by (cases wordFrequencies) auto
  with assms(1) show ?thesis by (simp add: calculateAngle_def)
qed

lemma prepareFrom_error:
  "prepareFrom random arrayLimit config minFreq maxFreq colors index calls wordFrequencies = Inl e
   \<Longrightarrow> e = UndefinedAngle \<or> e = InvalidArrayLength"
proof (induction wordFrequencies arbitrary: index calls)
  case Nil
  then show ?case by simp
next
  case (Cons p rest)
  obtain word frequency where p: "p = (word, frequency)" by (cases p)
  from Cons.prems show ?case
    unfolding p
    by (auto simp: Let_def calculateAngle_def split: option.splits sum.splits if_splits
             dest: Cons.IH generateAngles_error)
qed

lemma svgOutputPath_fields:
  "cfgAngleStep (svgOutputPath env config) = cfgAngleStep config"
  "cfgAngleRange (svgOutputPath env config) = cfgAngleRange config"
  by (simp_all add: svgOutputPath_def Let_def)

lemma generate_EmptyInput_iff:
  "generate env txt options = Inl EmptyInput \<longleftrightarrow> analyzeWordFrequency txt = []"
proof
  assume "analyzeWordFrequency txt = []"
  then show "generate env txt options = Inl EmptyInput"
    by (simp add: generate_def)
next
  assume g: "generate env txt options = Inl EmptyInput"
  show "analyzeWordFrequency txt = []"
  proof (rule ccontr)
    assume ne: "analyzeWordFrequency txt \<noteq> []"
    let ?config = "svgOutputPath env (mergeOptions defaultOptions options)"
    from g ne have "prepareWordItems (envRandom env) (envArrayLimit env)
                      (analyzeWordFrequency txt) ?config = Inl EmptyInput"
      by (auto simp: generate_def Let_def split: sum.splits)
    with ne have "EmptyInput = UndefinedAngle \<or> EmptyInput = InvalidArrayLength"
      by (auto simp: prepareWordItems_def Let_def dest: prepareFrom_error)
    then show False by simp
  qed
qed

lemma generate_fails:
  assumes "analyzeWordFrequency txt \<noteq> []"
    and "generateAngles (envArrayLimit env) (cfgAngleRange (mergeOptions defaultOptions options))
           (cfgAngleStep (mergeOptions defaultOptions options)) = Inl e"
  shows "generate env txt options = Inl e"
proof -
  let ?config = "svgOutputPath env (mergeOptions defaultOptions options)"
  have "generateAngles (envArrayLimit env) (cfgAngleRange ?config) (cfgAngleStep ?config) = Inl e"
    using assms(2) by (simp add: svgOutputPath_fields)
  then have "prepareWordItems (envRandom env) (envArrayLimit env) (analyzeWordFrequency txt)
               ?config = Inl e"
    using assms(1) by (simp add: prepareWordItems_def Let_def prepareFrom_fails)
  with assms(1) show ?thesis by (simp add: generate_def Let_def)
qed

lemma analyze_Nil_iff: "analyzeWordFrequency txt = [] \<longleftrightarrow> wordsOf txt = []"
proof -
  have "analyzeWordFrequency txt = [] \<longleftrightarrow> length (analyzeWordFrequency txt) = 0" by simp
  also have "\<dots> \<longleftrightarrow> card (set (wordsOf txt)) = 0" by (auto simp: analyze_length min_def)
  also have "\<dots> \<longleftrightarrow> wordsOf txt = []" by simp
  finally show ?thesis .
qed

lemma analyze_single: "analyzeWordFrequency (ascii ''a'') = [(ascii ''a'', 1)]"
  by (simp add: analyzeWordFrequency_def ascii_def trim_def isWhiteSpace_def
        splitWhiteSpace_def countWord_def sortDescending_def)

lemma analyze_blank: "analyzeWordFrequency (ascii ''  '') = []"
  by (simp add: analyzeWordFrequency_def ascii_def trim_def isWhiteSpace_def)

lemma zeroStep_merged:
  "cfgAngleStep (mergeOptions defaultOptions zeroStepOptions) = 0"
  "cfgAngleRange (mergeOptions defaultOptions zeroStepOptions) = \<lparr>rangeMin = - 45, rangeMax = 45\<rparr>"
  by (simp_all add: mergeOptions_def zeroStepOptions_def noOptions_def defaultOptions_def)

text \<open>
  Claim C6. The analyzer returns the empty list, not an error, on the empty text, and
  exactly on the texts that hold no word. \<^verbatim>\<open>generate\<close> ends in the empty-input error
  exactly when the analyzed list is empty; it does so whatever the options are, also
  under options for which the preparer fails, so the error comes before the preparer and
  the layout run.
\<close>

theorem generate_empty_input:
  "analyzeWordFrequency [] = [] \<and>
   (analyzeWordFrequency txt = [] \<longleftrightarrow> wordsOf txt = []) \<and>
   (generate env txt options = Inl EmptyInput \<longleftrightarrow> analyzeWordFrequency txt = [])"
  using analyze_Nil_iff generate_EmptyInput_iff by (simp add: analyzeWordFrequency_def)

theorem generate_empty_input_witness:
  "analyzeWordFrequency (ascii ''  '') = [] \<and> wordsOf (ascii ''  '') = [] \<and>
   generate exampleEnv (ascii ''  '') zeroStepOptions = Inl EmptyInput \<and>
   analyzeWordFrequency (ascii ''a'') \<noteq> [] \<and>
   generate exampleEnv (ascii ''a'') zeroStepOptions \<noteq> Inl EmptyInput"
  using generate_empty_input[of "ascii ''  ''" exampleEnv zeroStepOptions]
    generate_empty_input[of "ascii ''a''" exampleEnv zeroStepOptions]
  by (simp add: analyze_blank analyze_single)

text \<open>
  Claim C10, as stated, fails in both halves. A positive step need not give a grid: near
  \<open>- 45\<close> the step \<open>2 powr - 54\<close> is lost in the rounding of the sum, the angle never
  moves, and the run ends in \<^verbatim>\<open>RangeError: Invalid array length\<close> when the array is full.
  And for \<^verbatim>\<open>angleStep = 0\<close> the loop does end, in the same error, which \<^verbatim>\<open>generate\<close>
  rethrows as a generation failure.
\<close>

theorem positive_step_without_grid:
  "(0::real) < 1 / 2 ^ 54 \<and>
   generateAngles 4294967295 \<lparr>rangeMin = - 45, rangeMax = 45\<rparr> (1 / 2 ^ 54)
     = Inl InvalidArrayLength \<and>
   generateAngles 4294967295 \<lparr>rangeMin = - 45, rangeMax = 45\<rparr> 0 = Inl InvalidArrayLength \<and>
   generate exampleEnv (ascii ''a'') zeroStepOptions = Inl InvalidArrayLength"
proof -
  have absorbed: "generateAngles 4294967295 \<lparr>rangeMin = - 45, rangeMax = 45\<rparr> (1 / 2 ^ 54)
                    = Inl InvalidArrayLength"
    by (rule generateAngles_step_absorbed) (use roundDouble_absorbs in simp_all)
  have zero: "generateAngles arrayLimit \<lparr>rangeMin = - 45, rangeMax = 45\<rparr> 0
                = Inl InvalidArrayLength" for arrayLimit
    by (rule generateAngles_step_nonpositive) (simp_all add: roundDouble_numeral)
  have "generate exampleEnv (ascii ''a'') zeroStepOptions = Inl InvalidArrayLength"
    by (rule generate_fails) (simp_all add: analyze_single zeroStep_merged zero)
  with absorbed zero show ?thesis by simp
qed

text \<open>
  Claim C10, amended. The loop of \<^verbatim>\<open>generateAngles\<close> always ends: it returns a non-empty
  list, \<open>[0]\<close> when the range holds no grid point, or it throws
  \<^verbatim>\<open>RangeError: Invalid array length\<close> on the full array. Whenever it returns,
  \<^verbatim>\<open>calculateAngle\<close> yields a number for every index and every value of
  \<^verbatim>\<open>Math.random()\<close> in \<open>[0, 1)\<close>. It returns for a positive step (a double) that is not
  negligible against the range, \<open>2 ^ 52 * angleStep\<close> being at least \<open>\<bar>min\<bar>\<close> and
  \<open>\<bar>max\<bar> + angleStep\<close>, when the array can hold twice the grid. It throws for
  \<open>angleStep \<le> 0\<close> and \<open>min \<le> max\<close> (the maximum being a double), and for a step that
  the rounding of \<open>min + angleStep\<close> loses; no step of \<^verbatim>\<open>generate\<close> guards against it, so
  on a text with a word \<^verbatim>\<open>generate\<close> then ends in that error.
\<close>

theorem generateAngles_termination:
  "((\<exists>angles. generateAngles arrayLimit angleRange angleStep = Inr angles \<and> angles \<noteq> []) \<or>
    generateAngles arrayLimit angleRange angleStep = Inl InvalidArrayLength) \<and>
   (rangeMax angleRange < rangeMin angleRange \<longrightarrow>
      generateAngles arrayLimit angleRange angleStep = Inr [0]) \<and>
   (generateAngles arrayLimit angleRange angleStep = Inr grid \<and> 0 \<le> rnd \<and> rnd < 1 \<longrightarrow>
      (\<exists>angle. calculateAngle arrayLimit rnd index angleRange angleStep = Inr (Some angle))) \<and>
   (0 < angleStep \<and> roundDouble angleStep = angleStep \<and>
    \<bar>rangeMin angleRange\<bar> \<le> 2 ^ 52 * angleStep \<and>
    \<bar>rangeMax angleRange\<bar> + angleStep \<le> 2 ^ 52 * angleStep \<and>
    2 * (rangeMax angleRange - rangeMin angleRange) < real arrayLimit * angleStep \<longrightarrow>
      (\<exists>angles. generateAngles arrayLimit angleRange angleStep = Inr angles \<and> angles \<noteq> [])) \<and>
   (angleStep \<le> 0 \<and> rangeMin angleRange \<le> rangeMax angleRange \<and>
    roundDouble (rangeMax angleRange) = rangeMax angleRange \<longrightarrow>
      generateAngles arrayLimit angleRange angleStep = Inl InvalidArrayLength) \<and>
   (roundDouble (rangeMin angleRange + angleStep) = rangeMin angleRange \<and>
    rangeMin angleRange \<le> rangeMax angleRange \<longrightarrow>
      generateAngles arrayLimit angleRange angleStep = Inl InvalidArrayLength) \<and>
   (analyzeWordFrequency txt \<noteq> [] \<and>
    generateAngles (envArrayLimit env) (cfgAngleRange (mergeOptions defaultOptions options))
      (cfgAngleStep (mergeOptions defaultOptions options)) = Inl InvalidArrayLength \<longrightarrow>
      generate env txt options = Inl InvalidArrayLength)"
proof (intro conjI impI)
  show "(\<exists>angles. generateAngles arrayLimit angleRange angleStep = Inr angles \<and> angles \<noteq> []) \<or>
        generateAngles arrayLimit angleRange angleStep = Inl InvalidArrayLength"
    by (rule generateAngles_outcome)
next
  assume "rangeMax angleRange < rangeMin angleRange"
  then show "generateAngles arrayLimit angleRange angleStep = Inr [0]"
    by (rule generateAngles_fallback)
next
  assume "generateAngles arrayLimit angleRange angleStep = Inr grid \<and> 0 \<le> rnd \<and> rnd < 1"
  then show "\<exists>angle. calculateAngle arrayLimit rnd index angleRange angleStep = Inr (Some angle)"
    using calculateAngle_number by blast
next
  assume "0 < angleStep \<and> roundDouble angleStep = angleStep \<and>
    \<bar>rangeMin angleRange\<bar> \<le> 2 ^ 52 * angleStep \<and>
    \<bar>rangeMax angleRange\<bar> + angleStep \<le> 2 ^ 52 * angleStep \<and>
    2 * (rangeMax angleRange - rangeMin angleRange) < real arrayLimit * angleStep"
  then show "\<exists>angles. generateAngles arrayLimit angleRange angleStep = Inr angles \<and> angles \<noteq> []"
    using generateAngles_positive by blast
next
  assume "angleStep \<le> 0 \<and> rangeMin angleRange \<le> rangeMax angleRange \<and>
    roundDouble (rangeMax angleRange) = rangeMax angleRange"
  then show "generateAngles arrayLimit angleRange angleStep = Inl InvalidArrayLength"
    using generateAngles_step_nonpositive by blast
next
  assume "roundDouble (rangeMin angleRange + angleStep) = rangeMin angleRange \<and>
    rangeMin angleRange \<le> rangeMax angleRange"
  then show "generateAngles arrayLimit angleRange angleStep = Inl InvalidArrayLength"
    using generateAngles_step_absorbed by blast
next
  assume "analyzeWordFrequency txt \<noteq> [] \<and>
    generateAngles (envArrayLimit env) (cfgAngleRange (mergeOptions defaultOptions options))
      (cfgAngleStep (mergeOptions defaultOptions options)) = Inl InvalidArrayLength"
  then show "generate env txt options = Inl InvalidArrayLength"
    using generate_fails by blast
qed

theorem generateAngles_termination_witness:
  "generateAngles 4294967295 \<lparr>rangeMin = - 45, rangeMax = 45\<rparr> 15
     = Inr [- 45, - 30, - 15, 0, 15, 30, 45] \<and>
   generateAngles 4294967295 \<lparr>rangeMin = 45, rangeMax = - 45\<rparr> 15 = Inr [0] \<and>
   calculateAngle 4294967295 (1 / 2) 20 \<lparr>rangeMin = - 45, rangeMax = 45\<rparr> 15 = Inr (Some 0) \<and>
   roundDouble 15 = 15 \<and>
   roundDouble 45 = 45 \<and>
   generateAngles 4294967295 \<lparr>rangeMin = - 45, rangeMax = 45\<rparr> (- 15) = Inl InvalidArrayLength \<and>
   roundDouble (- 45 + 1 / 2 ^ 54) = - 45 \<and>
   generateAngles 7 \<lparr>rangeMin = - 45, rangeMax = 45\<rparr> (1 / 2 ^ 54) = Inl InvalidArrayLength \<and>
   analyzeWordFrequency (ascii ''a'') \<noteq> [] \<and>
   generate exampleEnv (ascii ''a'') (noOptions\<lparr>optAngleStep := Some (- 15)\<rparr>)
     = Inl InvalidArrayLength"
proof -
  let ?range = "\<lparr>rangeMin = - 45, rangeMax = 45\<rparr>"
  let ?options = "noOptions\<lparr>optAngleStep := Some (- 15)\<rparr>"
  have merged: "cfgAngleStep (mergeOptions defaultOptions ?options) = - 15"
      "cfgAngleRange (mergeOptions defaultOptions ?options) = ?range"
    by (simp_all add: mergeOptions_def noOptions_def defaultOptions_def)
  have grid: "generateAngles 4294967295 ?range 15 = Inr [- 45, - 30, - 15, 0, 15, 30, 45]"
    by (rule generateAngles_default) simp
  have floor: "\<lfloor>(7::real) / 2\<rfloor> = 3" by linarith
  have angle: "calculateAngle 4294967295 (1 / 2) 20 ?range 15 = Inr (Some 0)"
    by (simp add: calculateAngle_def grid arrayGet_def floor)
  have double: "roundDouble 45 = 45" "roundDouble 15 = 15" by (simp_all add: roundDouble_numeral)
  from generateAngles_termination[where arrayLimit = 4294967295 and angleRange = ?range
      and angleStep = 15 and grid = "[- 45, - 30, - 15, 0, 15, 30, 45]" and rnd = "1 / 2"
      and index = 20] grid double
  have returns: "\<exists>angles. generateAngles 4294967295 ?range 15 = Inr angles \<and> angles \<noteq> []"
    and number: "\<exists>a. calculateAngle 4294967295 (1 / 2) 20 ?range 15 = Inr (Some a)"
    by simp_all
  from generateAngles_termination[where arrayLimit = 4294967295
      and angleRange = "\<lparr>rangeMin = 45, rangeMax = - 45\<rparr>" and angleStep = 15]
  have fallback: "generateAngles 4294967295 \<lparr>rangeMin = 45, rangeMax = - 45\<rparr> 15 = Inr [0]"
    by simp
  from generateAngles_termination[where arrayLimit = 4294967295 and angleRange = ?range
      and angleStep = "- 15"] double
  have negative: "generateAngles 4294967295 ?range (- 15) = Inl InvalidArrayLength"
    by simp
  from generateAngles_termination[where arrayLimit = 7 and angleRange = ?range
      and angleStep = "1 / 2 ^ 54"] roundDouble_absorbs
  have absorbed: "generateAngles 7 ?range (1 / 2 ^ 54) = Inl InvalidArrayLength"
    by simp
  from generateAngles_termination[of _ _ _ _ _ _ "ascii ''a''" exampleEnv ?options]
    negative merged analyze_single
  have failure: "generate exampleEnv (ascii ''a'') ?options = Inl InvalidArrayLength"
    by (simp add: exampleEnv_def)
  from grid fallback angle double negative roundDouble_absorbs absorbed analyze_single failure
  show ?thesis by simp
qed

section \<open>Font sizes\<close>

lemma calculateFontSize_le:
  assumes "rangeMin r \<le> rangeMax r"
  shows "calculateFontSize f mn mx r \<le> maxAllowedSize r"
proof (cases "mx = mn")
  case True
  then have "calculateFontSize f mn mx r = (rangeMin r + rangeMax r) / 2"
    by (simp add: calculateFontSize_def)
  moreover have "(rangeMin r + rangeMax r) / 2
                   \<le> rangeMin r + 0.8 * (rangeMax r - rangeMin r)"
    using assms by (simp add: field_simps)
  ultimately show ?thesis unfolding maxAllowedSize_def by (simp only:)
next
  case False
  define calculatedSize where
    "calculatedSize = rangeMin r + mathPow ((f - mn) / (mx - mn)) 0.5 * (rangeMax r - rangeMin r)"
  from False have "calculateFontSize f mn mx r = min calculatedSize (maxAllowedSize r)"
    by (simp add: calculateFontSize_def Let_def calculatedSize_def maxAllowedSize_def
          mult.commute)
  then show ?thesis by simp
qed

lemma mathRound_mono: "v \<le> w \<Longrightarrow> mathRound v \<le> mathRound w"
  by (simp add: mathRound_def floor_mono)

lemma prepareFrom_fontSize:
  assumes "rangeMin (cfgFontSize config) \<le> rangeMax (cfgFontSize config)"
    and "prepareFrom random arrayLimit config minFreq maxFreq colors index calls wordFrequencies
           = Inr items"
  shows "\<forall>item \<in> set items. itemFontSize item \<le> mathRound (maxAllowedSize (cfgFontSize config))"
  using assms(2)
proof (induction wordFrequencies arbitrary: index calls items)
  case Nil
  then show ?case by simp
next
  case (Cons p rest)
  obtain word frequency where p: "p = (word, frequency)" by (cases p)
  from Cons.prems obtain angle item items'
    where items: "items = item # items'"
      and item: "itemFontSize item = mathRound (calculateFontSize (real frequency)
                   (real minFreq) (real maxFreq) (cfgFontSize config))"
      and rest: "prepareFrom random arrayLimit config minFreq maxFreq colors (index + 1)
                   (if index < 5 then calls else calls + 1) rest = Inr items'"
    unfolding p by (auto simp: Let_def split: option.splits sum.splits)
  from item have "itemFontSize item \<le> mathRound (maxAllowedSize (cfgFontSize config))"
    using calculateFontSize_le[OF assms(1)] by (simp add: mathRound_mono)
  with Cons.IH[OF rest] items show ?case by simp
qed

lemma prepareWordItems_fontSize:
  assumes "rangeMin (cfgFontSize config) \<le> rangeMax (cfgFontSize config)"
    and "prepareWordItems random arrayLimit wordFrequencies config = Inr items"
  shows "\<forall>item \<in> set items. itemFontSize item \<le> mathRound (maxAllowedSize (cfgFontSize config))"
proof (cases "length wordFrequencies = 0")
  case True
  with assms(2) show ?thesis by (simp add: prepareWordItems_def)
next
  case False
  with assms(2) show ?thesis
    by (auto simp: prepareWordItems_def Let_def dest: prepareFrom_fontSize[OF assms(1)])
qed

lemma calculateAdvancedFontSize_range:
  assumes "rangeMin r \<le> rangeMax r" and "mn \<le> f" and "f \<le> mx"
  shows "rangeMin r \<le> calculateAdvancedFontSize f mn mx r \<and>
         calculateAdvancedFontSize f mn mx r \<le> rangeMax r"
proof (cases "mx = mn")
  case True
  with assms(1) show ?thesis by (simp add: calculateAdvancedFontSize_def)
next
  case False
  with assms have less: "mn < mx" by simp
  define n where "n = (f - mn) / (mx - mn)"
  define l where "l = ln (n + 1) / ln 2"
  define e where "e = mathPow l 0.8"
  have n: "0 \<le> n" "n \<le> 1" using assms(2,3) less by (simp_all add: n_def)
  have "0 \<le> ln (n + 1)" using n by simp
  moreover have "ln (n + 1) \<le> ln 2" using n by simp
  ultimately have l: "0 \<le> l" "l \<le> 1" by (simp_all add: l_def)
  have e0: "0 \<le> e" by (simp add: e_def mathPow_def)
  have "l powr 0.8 \<le> 1 powr 0.8" using l by (intro powr_mono2) simp_all
  then have e1: "e \<le> 1" by (simp add: e_def mathPow_def)
  have eq: "calculateAdvancedFontSize f mn mx r = rangeMin r + e * (rangeMax r - rangeMin r)"
    using False by (simp add: calculateAdvancedFontSize_def Let_def n_def l_def e_def)
  have d: "0 \<le> rangeMax r - rangeMin r" using assms(1) by simp
  have "0 \<le> e * (rangeMax r - rangeMin r)" using e0 d by simp
  moreover have "e * (rangeMax r - rangeMin r) \<le> 1 * (rangeMax r - rangeMin r)"
    using e1 d by (intro mult_right_mono)
  ultimately show ?thesis unfolding eq by simp
qed

lemma calculateAdvancedFontSize_top:
  assumes "mn < mx"
  shows "calculateAdvancedFontSize mx mn mx r = rangeMax r"
  using assms by (simp add: calculateAdvancedFontSize_def mathPow_def)

lemma analyze_aab: "analyzeWordFrequency (ascii ''a a b'') = [(ascii ''a'', 2), (ascii ''b'', 1)]"
  by (simp add: analyzeWordFrequency_def ascii_def trim_def isWhiteSpace_def
        splitWhiteSpace_def countWord_def sortDescending_def)

lemma tiny_input_prepared:
  "prepareWordItems (\<lambda>k. 0) 4294967295 (analyzeWordFrequency (ascii ''a a b'')) tinyRangeConfig
     = Inr [tinyA, tinyB]"
proof -
  have r9: "\<lfloor>(93::real) / 10\<rfloor> = 9" and r8: "\<lfloor>(17::real) / 2\<rfloor> = 8" by linarith+
  show ?thesis
    unfolding analyze_aab
    by (simp add: prepareWordItems_def tinyRangeConfig_def defaultOptions_def colorThemes_def
          calculateAngle_def generateAngles_default calculateFontSize_def mathPow_def
          selectColorInternal_def arrayGet_def defaultTheme_def estimateTextDimensions_def
          baseWidthOf_def isCJK_def ascii_def mathRound_def tinyA_def tinyB_def r9 r8)
qed

text \<open>
  Claim C2, as stated, fails. The advanced and the multi-format generator have no clamp: the
  most frequent word gets the full \<^verbatim>\<open>fontSize.max\<close>, 80 for the range 12 to 80, above
  66.4. In the basic generator the stored font size is the rounded one: for the range 8 to
  9 the word \<^verbatim>\<open>a\<close> of \<^verbatim>\<open>a a b\<close> is stored with 9, above 8.8.
\<close>

theorem font_size_exceeds_clamp:
  "calculateAdvancedFontSize 2 1 2 \<lparr>rangeMin = 12, rangeMax = 80\<rparr> = 80 \<and>
   maxAllowedSize \<lparr>rangeMin = 12, rangeMax = 80\<rparr> = 332 / 5 \<and>
   prepareWordItems (\<lambda>k. 0) 4294967295 (analyzeWordFrequency (ascii ''a a b'')) tinyRangeConfig
     = Inr [tinyA, tinyB] \<and>
   itemFontSize tinyA = 9 \<and>
   maxAllowedSize (cfgFontSize tinyRangeConfig) = 44 / 5"
  using tiny_input_prepared
  by (simp add: calculateAdvancedFontSize_top maxAllowedSize_def tinyA_def tinyRangeConfig_def)

text \<open>
  Claim C2, amended. For a range with \<open>min \<le> max\<close>: \<^verbatim>\<open>calculateFontSize\<close> of the basic
  generator never exceeds \<open>min + 0.8 * (max - min)\<close>, and the font size stored in a
  prepared item, its \<^verbatim>\<open>Math.round\<close>, never exceeds the rounded bound. The function of the
  advanced and the multi-format generator stays within \<open>[min, max]\<close> for a frequency
  between the least and the largest, and returns \<open>max\<close> for the largest.
\<close>

theorem font_size_clamp:
  "(rangeMin fontSizeRange \<le> rangeMax fontSizeRange \<longrightarrow>
      calculateFontSize frequency minFreq maxFreq fontSizeRange \<le> maxAllowedSize fontSizeRange) \<and>
   (rangeMin (cfgFontSize config) \<le> rangeMax (cfgFontSize config) \<and>
    prepareWordItems random arrayLimit wordFrequencies config = Inr items \<longrightarrow>
      (\<forall>item \<in> set items.
         itemFontSize item \<le> mathRound (maxAllowedSize (cfgFontSize config)))) \<and>
   (rangeMin fontSizeRange \<le> rangeMax fontSizeRange \<and> minFreq \<le> frequency \<and> frequency \<le> maxFreq \<longrightarrow>
      rangeMin fontSizeRange \<le> calculateAdvancedFontSize frequency minFreq maxFreq fontSizeRange \<and>
      calculateAdvancedFontSize frequency minFreq maxFreq fontSizeRange \<le> rangeMax fontSizeRange) \<and>
   (minFreq < maxFreq \<longrightarrow>
      calculateAdvancedFontSize maxFreq minFreq maxFreq fontSizeRange = rangeMax fontSizeRange)"
  using calculateFontSize_le prepareWordItems_fontSize calculateAdvancedFontSize_range
    calculateAdvancedFontSize_top
  by (intro conjI impI) blast+

theorem font_size_clamp_witness:
  "calculateFontSize 2 1 2 \<lparr>rangeMin = 12, rangeMax = 45\<rparr>
     \<le> maxAllowedSize \<lparr>rangeMin = 12, rangeMax = 45\<rparr> \<and>
   prepareWordItems (\<lambda>k. 0) 4294967295 (analyzeWordFrequency (ascii ''a a b'')) overlapConfig
     = Inr [wordA, wordB] \<and>
   itemFontSize wordA \<le> mathRound (maxAllowedSize (cfgFontSize overlapConfig)) \<and>
   itemFontSize wordB \<le> mathRound (maxAllowedSize (cfgFontSize overlapConfig)) \<and>
   12 \<le> calculateAdvancedFontSize 2 1 2 \<lparr>rangeMin = 12, rangeMax = 45\<rparr> \<and>
   calculateAdvancedFontSize 2 1 2 \<lparr>rangeMin = 12, rangeMax = 45\<rparr> = 45"
  using font_size_clamp[of "\<lparr>rangeMin = 12, rangeMax = 45\<rparr>" 2 1 2 overlapConfig "\<lambda>k. 0"
      4294967295 "analyzeWordFrequency (ascii ''a a b'')" "[wordA, wordB]"]
    overlap_input_prepared
  by (simp add: overlapConfig_def defaultOptions_def)

section \<open>Colours\<close>

lemma prepareFrom_colors:
  assumes "prepareFrom random arrayLimit config minFreq maxFreq colors index calls wordFrequencies
             = Inr items"
  shows "map itemColor items
           = map (\<lambda>(i, word, frequency). selectColorInternal colors i (real frequency) (real maxFreq))
               (zip [index ..< index + length wordFrequencies] wordFrequencies)"
  using assms
proof (induction wordFrequencies arbitrary: index calls items)
  case Nil
  then show ?case by simp
next
  case (Cons p rest)
  obtain word frequency where p: "p = (word, frequency)" by (cases p)
  from Cons.prems obtain item items'
    where items: "items = item # items'"
      and item: "itemColor item = selectColorInternal colors index (real frequency) (real maxFreq)"
      and rest: "prepareFrom random arrayLimit config minFreq maxFreq colors (index + 1)
                   (if index < 5 then calls else calls + 1) rest = Inr items'"
    unfolding p by (auto simp: Let_def split: option.splits sum.splits)
  have "[index ..< index + length (p # rest)] = index # [index + 1 ..< index + 1 + length rest]"
    by (simp add: upt_rec)
  with Cons.IH[OF rest] items item p show ?case by simp
qed

lemma prepareWordItems_colors_deterministic:
  assumes "prepareWordItems random arrayLimit wordFrequencies config = Inr items"
    and "prepareWordItems random' arrayLimit' wordFrequencies config = Inr items'"
  shows "map itemColor items = map itemColor items'"
proof (cases "length wordFrequencies = 0")
  case True
  with assms show ?thesis by (simp add: prepareWordItems_def)
next
  case False
  with assms show ?thesis
    by (simp add: prepareWordItems_def Let_def prepareFrom_colors)
qed

lemma arrayGet_nth: "i < length xs \<Longrightarrow> arrayGet xs (int i) = Some (xs ! i)"
  by (simp add: arrayGet_def)

lemma selectColorInternal_buckets:
  assumes "10 \<le> length colors"
  shows "(frequency / maxFreq > 0.8 \<longrightarrow>
            selectColorInternal colors index frequency maxFreq = Some (colors ! (index mod 5))) \<and>
         (frequency / maxFreq > 0.5 \<and> frequency / maxFreq \<le> 0.8 \<longrightarrow>
            selectColorInternal colors index frequency maxFreq = Some (colors ! (index mod 10))) \<and>
         (frequency / maxFreq \<le> 0.5 \<longrightarrow>
            selectColorInternal colors index frequency maxFreq
              = Some (colors ! (index mod length colors)))"
proof -
  have m5: "min 5 (length colors) = 5" and m10: "min 10 (length colors) = 10"
    using assms by simp_all
  have "index mod 5 < 5" "index mod 10 < 10" by simp_all
  then have "index mod 5 < length colors" "index mod 10 < length colors"
    using assms by linarith+
  moreover have "0 < length colors" using assms by linarith
  then have "index mod length colors < length colors" by (rule mod_less_divisor)
  ultimately show ?thesis
    by (simp add: selectColorInternal_def Let_def m5 m10 arrayGet_nth)
qed

lemma selectColorInternal_top5:
  assumes "10 \<le> length colors" and "index < 5"
  shows "selectColorInternal colors index frequency maxFreq = Some (colors ! index)"
proof -
  have m5: "min 5 (length colors) = 5" and m10: "min 10 (length colors) = 10"
    using assms by simp_all
  from assms have "index mod 5 = index" "index mod 10 = index" "index mod length colors = index"
    "index < length colors" by simp_all
  then show ?thesis
    by (simp add: selectColorInternal_def Let_def m5 m10 arrayGet_nth)
qed

text \<open>
  Claim C7, as stated, fails: the buckets are drawn by the frequency ratio, not by rank. Of
  six words of equal count the sixth (rank 5, ratio 1) gets the first colour, where the rank
  rule gives the sixth; a word of rank 12 at half the largest count gets colour 12 of the
  default palette, outside the first ten.
\<close>

theorem color_not_by_rank:
  "selectColorInternal defaultTheme 5 1 1 = Some (ascii ''#FF4444'') \<and>
   rankBucketColor defaultTheme 5 1 1 = Some (ascii ''#00BCD4'') \<and>
   selectColorInternal defaultTheme 12 1 2 = Some (ascii ''#673AB7'') \<and>
   ascii ''#673AB7'' \<notin> set (take 10 defaultTheme)"
  by (simp add: selectColorInternal_def rankBucketColor_def arrayGet_def defaultTheme_def
        ascii_def)

text \<open>
  Claim C7, amended, for the basic generator and a palette of at least ten colours (every
  theme has ten or twenty). The colour is \<open>palette[rank mod 5]\<close> when the word's count is
  above 0.8 of the largest, \<open>palette[rank mod 10]\<close> when it is above 0.5 and at most 0.8,
  and \<open>palette[rank mod length]\<close> otherwise; for the first five ranks this is
  \<open>palette[rank]\<close> in every bucket. The colours of the prepared items do not depend on the
  random source.
\<close>

theorem color_buckets_by_frequency:
  "(10 \<le> length colors \<and> frequency / maxFreq > 0.8 \<longrightarrow>
      selectColorInternal colors index frequency maxFreq = Some (colors ! (index mod 5))) \<and>
   (10 \<le> length colors \<and> frequency / maxFreq > 0.5 \<and> frequency / maxFreq \<le> 0.8 \<longrightarrow>
      selectColorInternal colors index frequency maxFreq = Some (colors ! (index mod 10))) \<and>
   (10 \<le> length colors \<and> frequency / maxFreq \<le> 0.5 \<longrightarrow>
      selectColorInternal colors index frequency maxFreq
        = Some (colors ! (index mod length colors))) \<and>
   (10 \<le> length colors \<and> index < 5 \<longrightarrow>
      selectColorInternal colors index frequency maxFreq = Some (colors ! index)) \<and>
   (prepareWordItems random arrayLimit wordFrequencies config = Inr items \<and>
    prepareWordItems random' arrayLimit' wordFrequencies config = Inr items' \<longrightarrow>
      map itemColor items = map itemColor items')"
  using selectColorInternal_buckets selectColorInternal_top5 prepareWordItems_colors_deterministic
  by (intro conjI impI) blast+

theorem color_buckets_by_frequency_witness:
  "10 \<le> length defaultTheme \<and>
   selectColorInternal defaultTheme 7 9 10 = Some (defaultTheme ! 2) \<and>
   selectColorInternal defaultTheme 17 6 10 = Some (defaultTheme ! 7) \<and>
   selectColorInternal defaultTheme 17 1 10 = Some (defaultTheme ! 17) \<and>
   selectColorInternal defaultTheme 3 1 10 = Some (defaultTheme ! 3) \<and>
   map itemColor [wordA, wordB] = [Some (ascii ''#FF4444''), Some (ascii ''#2196F3'')]"
proof -
  have len: "10 \<le> length defaultTheme" by (simp add: defaultTheme_def)
  have prep: "prepareWordItems (\<lambda>k. 0) 4294967295 (analyzeWordFrequency (ascii ''a a b'')) overlapConfig
     = Inr [wordA, wordB]" by (rule overlap_input_prepared)
  from color_buckets_by_frequency[of defaultTheme 9 10 7 "\<lambda>k. 0" 4294967295
      "analyzeWordFrequency (ascii ''a a b'')" overlapConfig "[wordA, wordB]" "\<lambda>k. 0"
      4294967295 "[wordA, wordB]"]
    color_buckets_by_frequency[of defaultTheme 6 10 17]
    color_buckets_by_frequency[of defaultTheme 1 10 17]
    color_buckets_by_frequency[of defaultTheme 1 10 3]
    len
  show ?thesis by (simp add: wordA_def wordB_def defaultTheme_def)
qed

section \<open>The bounding box estimate\<close>

lemma baseWidth_foldl:
  "foldl (\<lambda>baseWidth char. if isCJK char then baseWidth + fontSize
                            else baseWidth + fontSize * 0.6) acc txt
     = acc + fontSize * (real (length (filter isCJK txt))
                         + 0.6 * real (length (filter (\<lambda>c. \<not> isCJK c) txt)))"
  by (induction "txt" arbitrary: acc) (simp_all add: algebra_simps)

lemma baseWidthOf_count:
  "baseWidthOf txt fontSize
     = fontSize * (real (length (filter isCJK txt))
                   + 0.6 * real (length (filter (\<lambda>c. \<not> isCJK c) txt)))"
  by (simp add: baseWidthOf_def baseWidth_foldl)

lemma estimate_horizontal:
  "estimateTextDimensions txt fontSize 0
     = \<lparr>dimWidth = baseWidthOf txt fontSize, dimHeight = fontSize * 1.2\<rparr>"
  by (simp add: estimateTextDimensions_def)

lemma estimate_rotated:
  assumes "angle \<noteq> 0"
  shows "estimateTextDimensions txt fontSize angle
     = \<lparr>dimWidth = \<bar>baseWidthOf txt fontSize * cos (\<bar>angle\<bar> * pi / 180)\<bar>
                    + \<bar>fontSize * 1.2 * sin (\<bar>angle\<bar> * pi / 180)\<bar>,
        dimHeight = \<bar>baseWidthOf txt fontSize * sin (\<bar>angle\<bar> * pi / 180)\<bar>
                    + \<bar>fontSize * 1.2 * cos (\<bar>angle\<bar> * pi / 180)\<bar>\<rparr>"
  using assms by (simp add: estimateTextDimensions_def Let_def)

lemma estimate_vertical:
  "estimateTextDimensions txt fontSize 90
     = \<lparr>dimWidth = \<bar>fontSize * 1.2\<bar>, dimHeight = \<bar>baseWidthOf txt fontSize\<bar>\<rparr>"
proof -
  have "\<bar>90::real\<bar> * pi / 180 = pi / 2" by simp
  then show ?thesis
    by (simp add: estimate_rotated cos_pi_half sin_pi_half del: times_divide_eq_left)
qed

lemma baseWidthOf_nonneg: "0 \<le> fontSize \<Longrightarrow> 0 \<le> baseWidthOf txt fontSize"
  by (simp add: baseWidthOf_count)

text \<open>
  Claim C8. For the angle 0 the estimate is exactly the base width and \<open>1.2 * fontSize\<close>,
  the base width being \<open>fontSize\<close> per CJK character and \<open>0.6 * fontSize\<close> per other
  character. For every other angle it is the rotated-rectangle formula at
  \<open>\<theta> = |angle| * \<pi> / 180\<close>. At 90 degrees width and height are those of the
  horizontal box, swapped (over the reals exactly).
\<close>

theorem estimateTextDimensions_box:
  "estimateTextDimensions txt fontSize 0
     = \<lparr>dimWidth = baseWidthOf txt fontSize, dimHeight = fontSize * 1.2\<rparr> \<and>
   baseWidthOf txt fontSize
     = fontSize * (real (length (filter isCJK txt))
                   + 0.6 * real (length (filter (\<lambda>c. \<not> isCJK c) txt))) \<and>
   (angle \<noteq> 0 \<longrightarrow>
      estimateTextDimensions txt fontSize angle
        = \<lparr>dimWidth = \<bar>baseWidthOf txt fontSize * cos (\<bar>angle\<bar> * pi / 180)\<bar>
                       + \<bar>fontSize * 1.2 * sin (\<bar>angle\<bar> * pi / 180)\<bar>,
           dimHeight = \<bar>baseWidthOf txt fontSize * sin (\<bar>angle\<bar> * pi / 180)\<bar>
                       + \<bar>fontSize * 1.2 * cos (\<bar>angle\<bar> * pi / 180)\<bar>\<rparr>) \<and>
   (0 \<le> fontSize \<longrightarrow>
      dimWidth (estimateTextDimensions txt fontSize 90)
        = dimHeight (estimateTextDimensions txt fontSize 0) \<and>
      dimHeight (estimateTextDimensions txt fontSize 90)
        = dimWidth (estimateTextDimensions txt fontSize 0))"
proof (intro conjI impI)
  assume "0 \<le> fontSize"
  then show "dimWidth (estimateTextDimensions txt fontSize 90)
               = dimHeight (estimateTextDimensions txt fontSize 0)"
    and "dimHeight (estimateTextDimensions txt fontSize 90)
               = dimWidth (estimateTextDimensions txt fontSize 0)"
    using baseWidthOf_nonneg[of fontSize "txt"]
    by (simp_all add: estimate_vertical estimate_horizontal)
qed (simp_all add: estimate_horizontal baseWidthOf_count estimate_rotated)

theorem estimateTextDimensions_box_witness:
  "estimateTextDimensions (ascii ''abc'') 10 0 = \<lparr>dimWidth = 18, dimHeight = 12\<rparr> \<and>
   (30::real) \<noteq> 0 \<and>
   estimateTextDimensions (ascii ''abc'') 10 30
     = \<lparr>dimWidth = \<bar>18 * cos (pi / 6)\<bar> + \<bar>12 * sin (pi / 6)\<bar>,
        dimHeight = \<bar>18 * sin (pi / 6)\<bar> + \<bar>12 * cos (pi / 6)\<bar>\<rparr> \<and>
   (0::real) \<le> 10 \<and>
   estimateTextDimensions (ascii ''abc'') 10 90 = \<lparr>dimWidth = 12, dimHeight = 18\<rparr>"
proof -
  have w: "baseWidthOf (ascii ''abc'') 10 = 18"
    by (simp add: baseWidthOf_def ascii_def isCJK_def)
  have a: "\<bar>30::real\<bar> * pi / 180 = pi / 6" by simp
  have v: "estimateTextDimensions (ascii ''abc'') 10 90 = \<lparr>dimWidth = 12, dimHeight = 18\<rparr>"
    by (simp add: estimate_vertical w)
  from estimateTextDimensions_box[of "ascii ''abc''" 10 30] show ?thesis
    unfolding w a using v by simp
qed

end
